theory Spec2Isabelle
  imports Complex_Main
begin

section \<open>Numbers, vectors and the geometry utilities (utils/cubeMath)\<close>

text \<open>
  A JavaScript \<open>number\<close> is modelled as a \<^typ>\<open>real\<close>: the arithmetic operations,
  \<open>Math.cos\<close>, \<open>Math.sin\<close>, \<open>Math.asin\<close> and \<open>Math.atan2\<close> are the exact real
  functions, so the rounding of the single operations of IEEE doubles, the sign of zero and
  \<open>NaN\<close> are not part of the model. \<open>Math.round\<close> rounds to the nearest integer, halves
  upwards, which is \<open>\<lfloor>n + 1/2\<rfloor>\<close>.

  The constant \<open>Math.PI\<close> is not \<open>\<pi>\<close>: it is the double nearest to \<open>\<pi>\<close>, a rational number
  a little below \<open>\<pi>\<close> (\<open>Math_PI\<close>). The commit of a move reads the constant, and its model
  takes the value of the constant as a parameter (\<open>commitCubieAt\<close>). At \<open>Math_PI\<close> a
  quarter turn takes a cell of the cube off the grid, by about \<open>6 \<cdot> 10\<^sup>-\<^sup>1\<^sup>7\<close>, and only the
  snap brings it back; the Euler angles of a piece, which nothing snaps, drift. The
  properties of the committed cubes are stated at \<open>Math_PI\<close>. The commit at \<open>\<pi>\<close> itself
  (\<open>commitCubie\<close>) is the idealised one; the scheduler is modelled with it and with
  \<open>\<pi>/2\<close> for the quarter turn, and what is stated of the scheduler concerns the order of
  the events and of the composition of the rotations, not the last digits of the angles.

  The functions of this section are those of \<open>utils/cubeMath\<close>.
\<close>

type_synonym Vector3 = "real \<times> real \<times> real"

datatype Axis = AxisX | AxisY | AxisZ

definition round_num :: "real \<Rightarrow> real" where
  "round_num n = of_int \<lfloor>n + 1 / 2\<rfloor>"

text \<open>The value of \<open>Math.PI\<close>: the double \<open>0x400921FB54442D18\<close>, which is
  \<open>884279719003555 / 2\<^sup>4\<^sup>8\<close>.\<close>

definition Math_PI :: real where
  "Math_PI = 884279719003555 / 281474976710656"

fun rotateX :: "Vector3 \<Rightarrow> real \<Rightarrow> Vector3" where
  "rotateX (x, y, z) angle =
     (x, y * cos angle - z * sin angle, y * sin angle + z * cos angle)"

fun rotateY :: "Vector3 \<Rightarrow> real \<Rightarrow> Vector3" where
  "rotateY (x, y, z) angle =
     (x * cos angle + z * sin angle, y, - x * sin angle + z * cos angle)"

fun rotateZ :: "Vector3 \<Rightarrow> real \<Rightarrow> Vector3" where
  "rotateZ (x, y, z) angle =
     (x * cos angle - y * sin angle, x * sin angle + y * cos angle, z)"

fun roundVector :: "Vector3 \<Rightarrow> Vector3" where
  "roundVector (x, y, z) = (round_num x, round_num y, round_num z)"

text \<open>The chain \<open>if (axis === 'x') ... else if (axis === 'y') ... else if (axis === 'z')\<close>
  that both \<open>getRotationResult\<close> and the commit of a move use.\<close>

fun rotateAxis :: "Axis \<Rightarrow> Vector3 \<Rightarrow> real \<Rightarrow> Vector3" where
  "rotateAxis AxisX p angle = rotateX p angle"
| "rotateAxis AxisY p angle = rotateY p angle"
| "rotateAxis AxisZ p angle = rotateZ p angle"

definition getRotationResult :: "Vector3 \<Rightarrow> Axis \<Rightarrow> real \<Rightarrow> Vector3" where
  "getRotationResult pos axis direction =
     (let angle = direction * (Math_PI / 2) in roundVector (rotateAxis axis pos angle))"

section \<open>The vector, quaternion and Euler operations of three.js that the code calls\<close>

text \<open>
  The library three.js is not part of the repository; its operations are written out as
  the library computes them (\<open>Vector3\<close>, \<open>Quaternion\<close>, \<open>Euler\<close> and \<open>Matrix4\<close>).
  Quaternions are \<open>(x, y, z, w)\<close>; Euler angles are \<open>(x, y, z)\<close> in the default order
  \<open>XYZ\<close>; of a \<open>Matrix4\<close> only the upper left 3x3 block is read, kept as three rows.
  \<open>atan2\<close> is \<open>Math.atan2\<close> on the reals, with \<open>atan2(0, x) = \<pi>\<close> for negative \<open>x\<close>.
\<close>

type_synonym Quaternion = "real \<times> real \<times> real \<times> real"
type_synonym Matrix3 = "Vector3 \<times> Vector3 \<times> Vector3"

fun subVectors :: "Vector3 \<Rightarrow> Vector3 \<Rightarrow> Vector3" where
  "subVectors (ax, ay, az) (bx, by, bz) = (ax - bx, ay - by, az - bz)"

fun addVectors :: "Vector3 \<Rightarrow> Vector3 \<Rightarrow> Vector3" where
  "addVectors (ax, ay, az) (bx, by, bz) = (ax + bx, ay + by, az + bz)"

fun multiplyScalar :: "Vector3 \<Rightarrow> real \<Rightarrow> Vector3" where
  "multiplyScalar (x, y, z) s = (x * s, y * s, z * s)"

fun dot :: "Vector3 \<Rightarrow> Vector3 \<Rightarrow> real" where
  "dot (ax, ay, az) (bx, by, bz) = ax * bx + ay * by + az * bz"

fun crossVectors :: "Vector3 \<Rightarrow> Vector3 \<Rightarrow> Vector3" where
  "crossVectors (ax, ay, az) (bx, by, bz) =
     (ay * bz - az * by, az * bx - ax * bz, ax * by - ay * bx)"

definition lengthSq :: "Vector3 \<Rightarrow> real" where
  "lengthSq v = dot v v"

definition vlength :: "Vector3 \<Rightarrow> real" where
  "vlength v = sqrt (lengthSq v)"

text \<open>\<open>normalize\<close> divides by \<open>this.length() || 1\<close>: the zero vector stays zero.\<close>

definition normalize :: "Vector3 \<Rightarrow> Vector3" where
  "normalize v = (let l = vlength v in multiplyScalar v (1 / (if l = 0 then 1 else l)))"

definition atan2 :: "real \<Rightarrow> real \<Rightarrow> real" where
  "atan2 y x =
     (if 0 < x then arctan (y / x)
      else if x < 0 then (if 0 \<le> y then arctan (y / x) + pi else arctan (y / x) - pi)
      else if 0 < y then pi / 2
      else if y < 0 then - (pi / 2)
      else 0)"

definition clamp :: "real \<Rightarrow> real \<Rightarrow> real \<Rightarrow> real" where
  "clamp v lo hi = max lo (min hi v)"

fun setFromEuler :: "Vector3 \<Rightarrow> Quaternion" where
  "setFromEuler (x, y, z) =
     (let c1 = cos (x / 2); c2 = cos (y / 2); c3 = cos (z / 2);
          s1 = sin (x / 2); s2 = sin (y / 2); s3 = sin (z / 2)
      in (s1 * c2 * c3 + c1 * s2 * s3,
          c1 * s2 * c3 - s1 * c2 * s3,
          c1 * c2 * s3 + s1 * s2 * c3,
          c1 * c2 * c3 - s1 * s2 * s3))"

fun setFromAxisAngle :: "Vector3 \<Rightarrow> real \<Rightarrow> Quaternion" where
  "setFromAxisAngle (ax, ay, az) angle =
     (let halfAngle = angle / 2; s = sin halfAngle
      in (ax * s, ay * s, az * s, cos halfAngle))"

fun multiplyQuaternions :: "Quaternion \<Rightarrow> Quaternion \<Rightarrow> Quaternion" where
  "multiplyQuaternions (qax, qay, qaz, qaw) (qbx, qby, qbz, qbw) =
     (qax * qbw + qaw * qbx + qay * qbz - qaz * qby,
      qay * qbw + qaw * qby + qaz * qbx - qax * qbz,
      qaz * qbw + qaw * qbz + qax * qby - qay * qbx,
      qaw * qbw - qax * qbx - qay * qby - qaz * qbz)"

text \<open>\<open>this.premultiply(q)\<close> is \<open>multiplyQuaternions(q, this)\<close>.\<close>

definition premultiply :: "Quaternion \<Rightarrow> Quaternion \<Rightarrow> Quaternion" where
  "premultiply this q = multiplyQuaternions q this"

fun makeRotationFromQuaternion :: "Quaternion \<Rightarrow> Matrix3" where
  "makeRotationFromQuaternion (x, y, z, w) =
     (let x2 = x + x; y2 = y + y; z2 = z + z;
          xx = x * x2; xy = x * y2; xz = x * z2;
          yy = y * y2; yz = y * z2; zz = z * z2;
          wx = w * x2; wy = w * y2; wz = w * z2
      in ((1 - (yy + zz), xy - wz, xz + wy),
          (xy + wz, 1 - (xx + zz), yz - wx),
          (xz - wy, yz + wx, 1 - (xx + yy))))"

fun setFromRotationMatrix :: "Matrix3 \<Rightarrow> Vector3" where
  "setFromRotationMatrix ((m11, m12, m13), (m21, m22, m23), (m31, m32, m33)) =
     (let ey = arcsin (clamp m13 (- 1) 1)
      in if \<bar>m13\<bar> < 0.9999999
         then (atan2 (- m23) m33, ey, atan2 (- m12) m11)
         else (atan2 m32 m22, ey, 0))"

definition setFromQuaternion :: "Quaternion \<Rightarrow> Vector3" where
  "setFromQuaternion q = setFromRotationMatrix (makeRotationFromQuaternion q)"

section \<open>Moves and pieces (types)\<close>

text \<open>\<open>MoveType\<close> is a union of twelve string literals; \<open>moveCode\<close> gives the literal,
  since the code reads its first character and looks for the prime in it.\<close>

datatype MoveType = U | U' | D | D' | L | L' | R | R' | F | F' | B | B'

fun moveCode :: "MoveType \<Rightarrow> string" where
  "moveCode U = ''U''" | "moveCode U' = [CHR ''U'', CHR 0x27]"
| "moveCode D = ''D''" | "moveCode D' = [CHR ''D'', CHR 0x27]"
| "moveCode L = ''L''" | "moveCode L' = [CHR ''L'', CHR 0x27]"
| "moveCode R = ''R''" | "moveCode R' = [CHR ''R'', CHR 0x27]"
| "moveCode F = ''F''" | "moveCode F' = [CHR ''F'', CHR 0x27]"
| "moveCode B = ''B''" | "moveCode B' = [CHR ''B'', CHR 0x27]"

text \<open>\<open>moveCode.includes("'")\<close>\<close>

definition includesPrime :: "MoveType \<Rightarrow> bool" where
  "includesPrime move = (CHR 0x27 \<in> set (moveCode move))"

record CubieData =
  id_num :: nat
  position :: Vector3
  rotation :: Vector3
  initialPosition :: Vector3

section \<open>The cube and its scheduler (components/RubiksCube)\<close>

text \<open>\<open>generateSolvedCube\<close> runs three nested loops over -1, 0, 1 and numbers the pieces in
  the order of their creation.\<close>

definition solvedPositions :: "Vector3 list" where
  "solvedPositions =
     concat (map (\<lambda>x. concat (map (\<lambda>y. map (\<lambda>z. (x, y, z)) [- 1, 0, 1]) [- 1, 0, 1]))
       [- 1, 0, 1])"

definition generateSolvedCube :: "CubieData list" where
  "generateSolvedCube =
     map (\<lambda>(i, pos). \<lparr>id_num = i, position = pos, rotation = (0, 0, 0), initialPosition = pos\<rparr>)
       (enumerate 0 solvedPositions)"

definition ANIMATION_SPEED :: real where
  "ANIMATION_SPEED = 0.15"

definition TOTAL_ROTATION :: real where
  "TOTAL_ROTATION = pi / 2"

record CurrentMove =
  move_type :: MoveType
  axis :: Axis
  layer :: real
  direction :: real
  progress :: real
  activeCubieIds :: "nat list"

text \<open>
  The component's state: the React state \<open>cubies\<close>, \<open>selectedCubieId\<close> and
  \<open>clickedFaceNormal\<close>, the three refs of the animation, and \<open>availableFaces\<close>, the state
  of \<open>App\<close> that \<open>onSelectionChange\<close> sets and that comes back as \<open>externalSelectedFaces\<close>.
\<close>

record CubeState =
  cubies :: "CubieData list"
  selectedCubieId :: "nat option"
  clickedFaceNormal :: "Vector3 option"
  isAnimating :: bool
  animationQueue :: "MoveType list"
  currentMove :: "CurrentMove option"
  availableFaces :: "string list"

definition initialState :: CubeState where
  "initialState =
     \<lparr>cubies = generateSolvedCube, selectedCubieId = None, clickedFaceNormal = None,
      isAnimating = False, animationQueue = [], currentMove = None, availableFaces = []\<rparr>"

fun component :: "Axis \<Rightarrow> Vector3 \<Rightarrow> real" where
  "component AxisX (x, y, z) = x"
| "component AxisY (x, y, z) = y"
| "component AxisZ (x, y, z) = z"

definition getCubiesInLayer :: "Axis \<Rightarrow> real \<Rightarrow> CubieData list \<Rightarrow> nat list" where
  "getCubiesInLayer ax lay currentCubies =
     map id_num (filter (\<lambda>c. round_num (component ax (position c)) = lay) currentCubies)"

definition triggerRotate :: "MoveType \<Rightarrow> CubeState \<Rightarrow> CubeState" where
  "triggerRotate move s = s\<lparr>animationQueue := animationQueue s @ [move]\<rparr>"

definition resetCube :: "CubeState \<Rightarrow> CubeState" where
  "resetCube s =
     s\<lparr>cubies := generateSolvedCube, animationQueue := [], currentMove := None,
       isAnimating := False, selectedCubieId := None, clickedFaceNormal := None,
       availableFaces := []\<rparr>"

text \<open>\<open>scrambleCube\<close> draws 25 times \<open>moves[Math.floor(Math.random() * moves.length)]\<close>;
  \<open>random i\<close> is the result of the call of \<open>Math.random\<close> in the round \<open>i\<close>, a number in
  \<open>[0, 1)\<close>, for which the index is below the length of \<open>moves\<close>.\<close>

definition scrambleMoves :: "MoveType list" where
  "scrambleMoves = [U, D, L, R, F, B, U', D', L', R', F', B']"

definition scrambleCube :: "(nat \<Rightarrow> real) \<Rightarrow> CubeState \<Rightarrow> CubeState" where
  "scrambleCube random s =
     (fold (\<lambda>i. triggerRotate (scrambleMoves ! nat \<lfloor>random i * real (length scrambleMoves)\<rfloor>))
        [0..<25] s)
     \<lparr>selectedCubieId := None, clickedFaceNormal := None\<rparr>"

text \<open>The \<open>switch (move[0])\<close> of the frame callback, with its defaults
  \<open>axis = 'y'\<close>, \<open>layer = 0\<close>, \<open>direction = 1\<close>, and the sign flip of a primed move.\<close>

definition parseMove :: "MoveType \<Rightarrow> Axis \<times> real \<times> real" where
  "parseMove move =
     (let c = hd (moveCode move);
          (ax, lay, dir) =
            (if c = CHR ''R'' then (AxisX, 1, - 1)
             else if c = CHR ''L'' then (AxisX, - 1, 1)
             else if c = CHR ''U'' then (AxisY, 1, - 1)
             else if c = CHR ''D'' then (AxisY, - 1, 1)
             else if c = CHR ''F'' then (AxisZ, 1, - 1)
             else if c = CHR ''B'' then (AxisZ, - 1, 1)
             else (AxisY, 0, 1))
      in (ax, lay, if includesPrime move then dir * (- 1) else dir))"

definition startMove :: "MoveType \<Rightarrow> CubieData list \<Rightarrow> CurrentMove" where
  "startMove move cs =
     (let (ax, lay, dir) = parseMove move
      in \<lparr>move_type = move, axis = ax, layer = lay, direction = dir, progress = 0,
          activeCubieIds = getCubiesInLayer ax lay cs\<rparr>)"

text \<open>The updater passed to \<open>setCubies\<close> when an animation completes, for one piece:
  the pieces whose id was not captured are returned as they are; the others are rotated
  by the angle \<open>direction * (Math.PI / 2)\<close> and snapped, and their Euler angles go through
  a quaternion that is premultiplied by the quaternion of the turn. The state update is
  applied at once. The parameter \<open>PI\<close> is the value of \<open>Math.PI\<close>.\<close>

definition axisVector :: "Axis \<Rightarrow> Vector3" where
  "axisVector ax =
     (if ax = AxisX then 1 else 0, if ax = AxisY then 1 else 0, if ax = AxisZ then 1 else 0)"

definition commitCubieAt :: "real \<Rightarrow> Axis \<Rightarrow> real \<Rightarrow> nat list \<Rightarrow> CubieData \<Rightarrow> CubieData" where
  "commitCubieAt PI ax dir ids c =
     (let angle = dir * (PI / 2)
      in if id_num c \<notin> set ids then c
         else
           let newPos = roundVector (rotateAxis ax (position c) angle);
               objQuat = setFromEuler (rotation c);
               rotQuat = setFromAxisAngle (axisVector ax) angle;
               newEuler = setFromQuaternion (premultiply objQuat rotQuat)
           in c\<lparr>position := newPos, rotation := newEuler\<rparr>)"

definition commitCubiesAt :: "real \<Rightarrow> CurrentMove \<Rightarrow> CubieData list \<Rightarrow> CubieData list" where
  "commitCubiesAt PI cm prevCubies =
     map (commitCubieAt PI (axis cm) (direction cm) (activeCubieIds cm)) prevCubies"

text \<open>The idealised commit, with \<open>\<pi>\<close> itself for the constant.\<close>

definition commitCubie :: "Axis \<Rightarrow> real \<Rightarrow> nat list \<Rightarrow> CubieData \<Rightarrow> CubieData" where
  "commitCubie = commitCubieAt pi"

definition commitCubies :: "CurrentMove \<Rightarrow> CubieData list \<Rightarrow> CubieData list" where
  "commitCubies cm prevCubies =
     map (commitCubie (axis cm) (direction cm) (activeCubieIds cm)) prevCubies"

text \<open>One call of the frame callback (\<open>useFrame\<close>): first the dequeue when idle, then the
  advance of the move in flight and its commit at the quarter turn.\<close>

definition dequeueStep :: "CubeState \<Rightarrow> CubeState" where
  "dequeueStep s =
     (if \<not> isAnimating s \<and> length (animationQueue s) > 0
      then s\<lparr>animationQueue := tl (animationQueue s),
             currentMove := Some (startMove (hd (animationQueue s)) (cubies s)),
             isAnimating := True\<rparr>
      else s)"

definition animateStep :: "CubeState \<Rightarrow> CubeState" where
  "animateStep s =
     (case currentMove s of
        None \<Rightarrow> s
      | Some cm0 \<Rightarrow>
          if \<not> isAnimating s then s
          else
            let speed = (if length (animationQueue s) > 5 then ANIMATION_SPEED * 4
                         else ANIMATION_SPEED);
                cm = cm0\<lparr>progress := progress cm0 + speed\<rparr>
            in if progress cm \<ge> TOTAL_ROTATION
               then s\<lparr>cubies := commitCubies cm (cubies s), isAnimating := False,
                      currentMove := None\<rparr>
               else s\<lparr>currentMove := Some cm\<rparr>)"

definition useFrame :: "CubeState \<Rightarrow> CubeState" where
  "useFrame s = animateStep (dequeueStep s)"

text \<open>Committing a move on a cube: what the scheduler does to \<open>cubies\<close> between taking
  the move from the queue and finishing its animation.\<close>

definition commitMove :: "MoveType \<Rightarrow> CubieData list \<Rightarrow> CubieData list" where
  "commitMove move cs = commitCubies (startMove move cs) cs"

definition commitMoveAt :: "real \<Rightarrow> MoveType \<Rightarrow> CubieData list \<Rightarrow> CubieData list" where
  "commitMoveAt PI move cs = commitCubiesAt PI (startMove move cs) cs"

section \<open>Selecting a piece (\<open>handleCubieClick\<close>) and the handlers of \<open>App\<close>\<close>

text \<open>The snap of the clicked normal: \<open>Math.max\<close> of the three magnitudes, then per
  component \<open>Math.abs(n.c) === maxComp ? Math.sign(n.c) : 0\<close>.\<close>

definition snapNormal :: "Vector3 \<Rightarrow> Vector3" where
  "snapNormal normal =
     (let (nx, ny, nz) = normalize normal;
          maxComp = max (max \<bar>nx\<bar> \<bar>ny\<bar>) \<bar>nz\<bar>
      in (if \<bar>nx\<bar> = maxComp then sgn nx else 0,
          if \<bar>ny\<bar> = maxComp then sgn ny else 0,
          if \<bar>nz\<bar> = maxComp then sgn nz else 0))"

definition validFaces :: "Vector3 \<Rightarrow> string list" where
  "validFaces pos =
     (let (x, y, z) = roundVector pos
      in (if x = 1 then [''R''] else []) @
         (if x = - 1 then [''L''] else []) @
         (if y = 1 then [''U''] else []) @
         (if y = - 1 then [''D''] else []) @
         (if z = 1 then [''F''] else []) @
         (if z = - 1 then [''B''] else []) @
         (if x = 0 \<and> y = 0 \<and> z = 1 then [''F''] else []) @
         (if x = 0 \<and> y = 0 \<and> z = - 1 then [''B''] else []) @
         (if x = 1 \<and> y = 0 \<and> z = 0 then [''R''] else []) @
         (if x = - 1 \<and> y = 0 \<and> z = 0 then [''L''] else []) @
         (if x = 0 \<and> y = 1 \<and> z = 0 then [''U''] else []) @
         (if x = 0 \<and> y = - 1 \<and> z = 0 then [''D''] else []))"

text \<open>The effect on \<open>externalSelectedFaces\<close>: an empty list clears the selection.\<close>

definition selectionEffect :: "CubeState \<Rightarrow> CubeState" where
  "selectionEffect s =
     (if length (availableFaces s) = 0
      then s\<lparr>selectedCubieId := None, clickedFaceNormal := None\<rparr>
      else s)"

text \<open>A click on a piece; \<open>e.normal\<close> may be absent. During an animation the handler
  returns before any change.\<close>

definition handleCubieClick :: "Vector3 option \<Rightarrow> CubieData \<Rightarrow> CubeState \<Rightarrow> CubeState" where
  "handleCubieClick normal cubie s =
     (if isAnimating s then s
      else selectionEffect
        (s\<lparr>selectedCubieId := Some (id_num cubie),
           clickedFaceNormal :=
             (case normal of None \<Rightarrow> clickedFaceNormal s | Some n \<Rightarrow> Some (snapNormal n)),
           availableFaces := validFaces (position cubie)\<rparr>))"

definition handleScramble :: "(nat \<Rightarrow> real) \<Rightarrow> CubeState \<Rightarrow> CubeState" where
  "handleScramble random s = selectionEffect ((scrambleCube random s)\<lparr>availableFaces := []\<rparr>)"

definition handleReset :: "CubeState \<Rightarrow> CubeState" where
  "handleReset s = selectionEffect ((resetCube s)\<lparr>availableFaces := []\<rparr>)"

definition handleBackgroundClick :: "CubeState \<Rightarrow> CubeState" where
  "handleBackgroundClick s = selectionEffect (s\<lparr>availableFaces := []\<rparr>)"

section \<open>The arrows of a selected piece (\<open>ArrowIndicators\<close>)\<close>

text \<open>The repository holds two arrow components. The first, with \<open>generateArrow\<close>, takes
  the position of the selected piece and the clicked normal: it is the one \<open>RubiksCube\<close>
  renders. An arrow is the \<open>ArrowMesh\<close> element pushed to \<open>arrows\<close>: its key, position,
  direction, the move its click triggers, and its colour.\<close>

record Arrow =
  arrow_key :: string
  arrow_position :: Vector3
  arrow_direction :: Vector3
  arrow_label :: MoveType
  arrow_color :: string

definition FACE_OFFSET :: real where
  "FACE_OFFSET = 0.6"

definition RING_OFFSET :: real where
  "RING_OFFSET = 0.35"

definition moveDefs :: "string \<rightharpoonup> Axis \<times> real" where
  "moveDefs =
     map_of [(''R'', (AxisX, - 1)), (''L'', (AxisX, 1)), (''U'', (AxisY, - 1)),
             (''D'', (AxisY, 1)), (''F'', (AxisZ, - 1)), (''B'', (AxisZ, 1))]"

text \<open>\<open>moveCode.replace("'", "")\<close> removes the first prime.\<close>

definition baseCode :: "MoveType \<Rightarrow> string" where
  "baseCode move = remove1 (CHR 0x27) (moveCode move)"

fun applyQuaternion :: "Vector3 \<Rightarrow> Quaternion \<Rightarrow> Vector3" where
  "applyQuaternion (vx, vy, vz) (qx, qy, qz, qw) =
     (let tx = 2 * (qy * vz - qz * vy);
          ty = 2 * (qz * vx - qx * vz);
          tz = 2 * (qx * vy - qy * vx)
      in (vx + qw * tx + qy * tz - qz * ty,
          vy + qw * ty + qz * tx - qx * tz,
          vz + qw * tz + qx * ty - qy * tx))"

definition applyAxisAngle :: "Vector3 \<Rightarrow> Vector3 \<Rightarrow> real \<Rightarrow> Vector3" where
  "applyAxisAngle v ax angle = applyQuaternion v (setFromAxisAngle ax angle)"

text \<open>\<open>generateArrow\<close> for the selected piece at \<open>cubiePosition\<close> and the clicked normal:
  the list of the arrows it pushes (none or one). The lookup \<open>moveDefs[baseCode]\<close> is
  defined for all twelve moves; if it were not, reading \<open>def.dir\<close> would throw, which
  is the value \<open>None\<close> here.\<close>

definition generateArrow :: "Vector3 \<Rightarrow> Vector3 \<Rightarrow> MoveType \<Rightarrow> Arrow list option" where
  "generateArrow cubiePosition normalVec move =
     (let (x, y, z) = cubiePosition; base = baseCode move
      in case moveDefs base of
           None \<Rightarrow> None
         | Some (def_axis, def_dir) \<Rightarrow>
             let effectiveDir = (if includesPrime move then def_dir * (- 1) else def_dir);
                 isAffected =
                   ((base = ''R'' \<and> x = 1) \<or> (base = ''L'' \<and> x = - 1) \<or>
                    (base = ''U'' \<and> y = 1) \<or> (base = ''D'' \<and> y = - 1) \<or>
                    (base = ''F'' \<and> z = 1) \<or> (base = ''B'' \<and> z = - 1))
             in if \<not> isAffected then Some []
                else
                  let startPos = (x, y, z);
                      nextPos = getRotationResult (x, y, z) def_axis effectiveDir;
                      displacement = subVectors nextPos startPos
                  in if lengthSq displacement < 0.1
                     then
                       (let axisVec = axisVector def_axis
                        in if \<bar>dot axisVec normalVec\<bar> > 0.9
                           then
                             let up0 = (if \<bar>fst (snd normalVec)\<bar> > 0.9 then (0, 0, - 1)
                                        else (0, 1, 0));
                                 up = applyAxisAngle up0 axisVec 0;
                                 ringPos0 = addVectors startPos (multiplyScalar up RING_OFFSET);
                                 radius = subVectors ringPos0 startPos;
                                 tangent = normalize
                                   (multiplyScalar (crossVectors axisVec radius) effectiveDir);
                                 ringPos = addVectors ringPos0
                                   (multiplyScalar normalVec FACE_OFFSET)
                             in Some [\<lparr>arrow_key = moveCode move @ ''-center'',
                                       arrow_position = ringPos, arrow_direction = tangent,
                                       arrow_label = move, arrow_color = ''#ffffff''\<rparr>]
                           else Some [])
                     else
                       let d = dot (normalize displacement) normalVec
                       in if \<bar>d\<bar> > 0.1 then Some []
                          else
                            let dir = normalize displacement;
                                arrowPos = addVectors
                                  (addVectors startPos (multiplyScalar normalVec FACE_OFFSET))
                                  (multiplyScalar dir 0.4)
                            in Some [\<lparr>arrow_key = moveCode move @ ''-edge'',
                                      arrow_position = arrowPos, arrow_direction = dir,
                                      arrow_label = move, arrow_color = ''#4ade80''\<rparr>])"

text \<open>The component: \<open>generateArrow\<close> for each of the twelve moves, in the order of the
  source; a throw in one call ends the rendering.\<close>

fun collectArrows :: "(MoveType \<Rightarrow> Arrow list option) \<Rightarrow> MoveType list \<Rightarrow> Arrow list option" where
  "collectArrows g [] = Some []"
| "collectArrows g (m # ms) =
     (case g m of
        None \<Rightarrow> None
      | Some as \<Rightarrow> (case collectArrows g ms of None \<Rightarrow> None | Some bs \<Rightarrow> Some (as @ bs)))"

definition ArrowIndicators :: "Vector3 \<Rightarrow> Vector3 \<Rightarrow> Arrow list option" where
  "ArrowIndicators cubiePosition clickedNormal =
     collectArrows (generateArrow cubiePosition clickedNormal)
       [R, R', L, L', U, U', D, D', F, F', B, B']"

subsection \<open>The arrow component with \<open>addArrow\<close>\<close>

text \<open>The second arrow component (file components/ArrowIndicators.tsx) takes the position
  of the selected piece only; its constants and the component itself carry the suffix
  \<open>_ring\<close> where they share a name with the ones above.\<close>

definition FACE_OFFSET_ring :: real where
  "FACE_OFFSET_ring = 0.52"

definition EDGE_OFFSET :: real where
  "EDGE_OFFSET = 0.42"

definition startsWith :: "string \<Rightarrow> string \<Rightarrow> bool" where
  "startsWith str pre = (take (length pre) str = pre)"

definition whiteArrow :: "MoveType \<Rightarrow> string \<Rightarrow> Vector3 \<Rightarrow> Vector3 \<Rightarrow> Arrow" where
  "whiteArrow move suffix pos dir =
     \<lparr>arrow_key = moveCode move @ suffix, arrow_position = pos, arrow_direction = dir,
      arrow_label = move, arrow_color = ''white''\<rparr>"

definition addArrow :: "Vector3 \<Rightarrow> Axis \<Rightarrow> real \<Rightarrow> MoveType \<Rightarrow> Arrow list" where
  "addArrow cubiePosition axisName faceVal move =
     (let (x, y, z) = cubiePosition;
          code = moveCode move;
          (targetAxis, targetDir0) =
            (if startsWith code ''R'' then (AxisX, - 1)
             else if startsWith code ''L'' then (AxisX, 1)
             else if startsWith code ''U'' then (AxisY, - 1)
             else if startsWith code ''D'' then (AxisY, 1)
             else if startsWith code ''F'' then (AxisZ, - 1)
             else if startsWith code ''B'' then (AxisZ, 1)
             else (AxisX, 1));
          targetDir = (if includesPrime move then targetDir0 * (- 1) else targetDir0);
          nextPos = getRotationResult cubiePosition targetAxis targetDir;
          moveDir = subVectors nextPos (x, y, z);
          isCenter = (lengthSq moveDir = 0)
      in if isCenter
         then
           (let isCW = \<not> includesPrime move
            in if \<not> isCW then []
               else if axisName = AxisZ
               then [whiteArrow move ''-t'' (x, y + EDGE_OFFSET, z + faceVal * FACE_OFFSET_ring)
                       (faceVal, 0, 0),
                     whiteArrow move ''-r'' (x + EDGE_OFFSET, y, z + faceVal * FACE_OFFSET_ring)
                       (0, - faceVal, 0),
                     whiteArrow move ''-b'' (x, y - EDGE_OFFSET, z + faceVal * FACE_OFFSET_ring)
                       (- faceVal, 0, 0),
                     whiteArrow move ''-l'' (x - EDGE_OFFSET, y, z + faceVal * FACE_OFFSET_ring)
                       (0, faceVal, 0)]
               else if axisName = AxisY
               then [whiteArrow move ''-t'' (x, y + faceVal * FACE_OFFSET_ring, z - EDGE_OFFSET)
                       (faceVal, 0, 0),
                     whiteArrow move ''-r'' (x + EDGE_OFFSET, y + faceVal * FACE_OFFSET_ring, z)
                       (0, 0, faceVal),
                     whiteArrow move ''-b'' (x, y + faceVal * FACE_OFFSET_ring, z + EDGE_OFFSET)
                       (- faceVal, 0, 0),
                     whiteArrow move ''-l'' (x - EDGE_OFFSET, y + faceVal * FACE_OFFSET_ring, z)
                       (0, 0, - faceVal)]
               else [whiteArrow move ''-t'' (x + faceVal * FACE_OFFSET_ring, y + EDGE_OFFSET, z)
                       (0, 0, faceVal),
                     whiteArrow move ''-f'' (x + faceVal * FACE_OFFSET_ring, y, z + EDGE_OFFSET)
                       (0, - faceVal, 0),
                     whiteArrow move ''-b'' (x + faceVal * FACE_OFFSET_ring, y - EDGE_OFFSET, z)
                       (0, 0, - faceVal),
                     whiteArrow move ''-bk'' (x + faceVal * FACE_OFFSET_ring, y, z - EDGE_OFFSET)
                       (0, faceVal, 0)])
         else
           (let (mx0, my0, mz0) = moveDir;
                mx = (if axisName = AxisX then 0 else mx0);
                my = (if axisName = AxisY then 0 else my0);
                mz = (if axisName = AxisZ then 0 else mz0);
                snapped =
                  (if \<bar>mx\<bar> > 0.1 \<and> \<bar>my\<bar> > 0.1 then (mx, my, mz)
                   else if \<bar>my\<bar> > 0.1 \<and> \<bar>mz\<bar> > 0.1
                   then (if \<bar>z\<bar> > 0.9 then (mx, my, 0)
                         else if \<bar>y\<bar> > 0.9 then (mx, 0, mz) else (mx, my, mz))
                   else if \<bar>mx\<bar> > 0.1 \<and> \<bar>mz\<bar> > 0.1
                   then (if \<bar>z\<bar> > 0.9 then (mx, my, 0)
                         else if \<bar>x\<bar> > 0.9 then (0, my, mz) else (mx, my, mz))
                   else if \<bar>mx\<bar> > 0.1 \<and> \<bar>my\<bar> > 0.1
                   then (if \<bar>y\<bar> > 0.9 then (mx, 0, mz)
                         else if \<bar>x\<bar> > 0.9 then (0, my, mz) else (mx, my, mz))
                   else (mx, my, mz));
                dir = normalize snapped;
                arrowPos0 =
                  (x + (if axisName = AxisX then faceVal * FACE_OFFSET_ring else 0),
                   y + (if axisName = AxisY then faceVal * FACE_OFFSET_ring else 0),
                   z + (if axisName = AxisZ then faceVal * FACE_OFFSET_ring else 0));
                arrowPos = addVectors arrowPos0 (multiplyScalar dir EDGE_OFFSET)
            in [\<lparr>arrow_key = moveCode move, arrow_position = arrowPos, arrow_direction = dir,
                 arrow_label = move, arrow_color = ''#4ade80''\<rparr>]))"

definition checkAndAdd :: "Vector3 \<Rightarrow> Axis \<Rightarrow> real \<Rightarrow> MoveType \<Rightarrow> MoveType \<Rightarrow> Arrow list" where
  "checkAndAdd cubiePosition ax val cw ccw =
     (let (x, y, z) = cubiePosition;
          isCorrectFace =
            ((ax = AxisX \<and> x = val) \<or> (ax = AxisY \<and> y = val) \<or> (ax = AxisZ \<and> z = val))
      in if isCorrectFace
         then addArrow cubiePosition ax val cw @ addArrow cubiePosition ax val ccw
         else [])"

definition ArrowIndicators_ring :: "Vector3 \<Rightarrow> Arrow list" where
  "ArrowIndicators_ring cubiePosition =
     (let (x, y, z) = cubiePosition
      in (if x = 1 then checkAndAdd cubiePosition AxisX 1 R R' else []) @
         (if x = - 1 then checkAndAdd cubiePosition AxisX (- 1) L' L else []) @
         (if y = 1 then checkAndAdd cubiePosition AxisY 1 U U' else []) @
         (if y = - 1 then checkAndAdd cubiePosition AxisY (- 1) D' D else []) @
         (if z = 1 then checkAndAdd cubiePosition AxisZ 1 F F' else []) @
         (if z = - 1 then checkAndAdd cubiePosition AxisZ (- 1) B' B else []))"

section \<open>Notions used to state the properties\<close>

subsection \<open>Cube states reached by committed moves\<close>

text \<open>The 27 cells of the cube: the integer triples with every component in \<open>{-1, 0, 1}\<close>.\<close>

definition cubeCells :: "Vector3 set" where
  "cubeCells = {(x, y, z). x \<in> {- 1, 0, 1} \<and> y \<in> {- 1, 0, 1} \<and> z \<in> {- 1, 0, 1}}"

text \<open>The cubes reached from the solved cube by committing moves, one after the other:
  with the value \<open>PI\<close> of the constant, and with the idealised commit.\<close>

inductive reachableCubiesAt :: "real \<Rightarrow> CubieData list \<Rightarrow> bool" for PI :: real where
  solvedAt: "reachableCubiesAt PI generateSolvedCube"
| commitAt: "reachableCubiesAt PI cs \<Longrightarrow> reachableCubiesAt PI (commitMoveAt PI move cs)"

inductive reachableCubies :: "CubieData list \<Rightarrow> bool" where
  solved: "reachableCubies generateSolvedCube"
| commit: "reachableCubies cs \<Longrightarrow> reachableCubies (commitMove move cs)"

text \<open>The primed counterpart of a plain move, and the plain one of a primed move.\<close>

fun counterpart :: "MoveType \<Rightarrow> MoveType" where
  "counterpart U = U'" | "counterpart U' = U"
| "counterpart D = D'" | "counterpart D' = D"
| "counterpart L = L'" | "counterpart L' = L"
| "counterpart R = R'" | "counterpart R' = R"
| "counterpart F = F'" | "counterpart F' = F"
| "counterpart B = B'" | "counterpart B' = B"

text \<open>The exact quarter turn of a point about an axis, in the direction \<open>d\<close> (1 or -1):
  what \<open>roundVector\<close> makes of the result of \<open>rotateAxis\<close> on the cells of the cube.\<close>

fun quarterTurn :: "Axis \<Rightarrow> real \<Rightarrow> Vector3 \<Rightarrow> Vector3" where
  "quarterTurn AxisX d (x, y, z) = (x, - (z * d), y * d)"
| "quarterTurn AxisY d (x, y, z) = (z * d, y, - (x * d))"
| "quarterTurn AxisZ d (x, y, z) = (- (y * d), x * d, z)"

definition layerTurn :: "Axis \<Rightarrow> real \<Rightarrow> real \<Rightarrow> Vector3 \<Rightarrow> Vector3" where
  "layerTurn ax lay d p = (if component ax p = lay then quarterTurn ax d p else p)"

text \<open>The new Euler angles of an active piece, as \<open>commitCubieAt\<close> computes them, and
  those of the idealised commit.\<close>

definition turnRotationAt :: "real \<Rightarrow> Axis \<Rightarrow> real \<Rightarrow> Vector3 \<Rightarrow> Vector3" where
  "turnRotationAt PI ax d e =
     setFromQuaternion
       (premultiply (setFromEuler e) (setFromAxisAngle (axisVector ax) (d * (PI / 2))))"

definition turnRotation :: "Axis \<Rightarrow> real \<Rightarrow> Vector3 \<Rightarrow> Vector3" where
  "turnRotation = turnRotationAt pi"

text \<open>The commit of one piece, with the layer decided by the piece's own position instead
  of the captured ids, and the exact quarter turn for the snapped rotation; on a well
  placed cube it is \<open>commitCubieAt\<close>.\<close>

definition turnCubieAt :: "real \<Rightarrow> Axis \<Rightarrow> real \<Rightarrow> real \<Rightarrow> CubieData \<Rightarrow> CubieData" where
  "turnCubieAt PI ax lay d c =
     (if component ax (position c) = lay
      then c\<lparr>position := quarterTurn ax d (position c),
             rotation := turnRotationAt PI ax d (rotation c)\<rparr>
      else c)"

definition turnCubie :: "Axis \<Rightarrow> real \<Rightarrow> real \<Rightarrow> CubieData \<Rightarrow> CubieData" where
  "turnCubie = turnCubieAt pi"

definition wellPlaced :: "CubieData list \<Rightarrow> bool" where
  "wellPlaced cs \<longleftrightarrow>
     distinct (map id_num cs) \<and> distinct (map position cs) \<and> set (map position cs) = cubeCells"

subsection \<open>Orientations as rotation matrices\<close>

fun normSq :: "Quaternion \<Rightarrow> real" where
  "normSq (x, y, z, w) = x * x + y * y + z * z + w * w"

fun matMul :: "Matrix3 \<Rightarrow> Matrix3 \<Rightarrow> Matrix3" where
  "matMul ((a11, a12, a13), (a21, a22, a23), (a31, a32, a33))
          ((b11, b12, b13), (b21, b22, b23), (b31, b32, b33)) =
     ((a11 * b11 + a12 * b21 + a13 * b31, a11 * b12 + a12 * b22 + a13 * b32,
       a11 * b13 + a12 * b23 + a13 * b33),
      (a21 * b11 + a22 * b21 + a23 * b31, a21 * b12 + a22 * b22 + a23 * b32,
       a21 * b13 + a22 * b23 + a23 * b33),
      (a31 * b11 + a32 * b21 + a33 * b31, a31 * b12 + a32 * b22 + a33 * b32,
       a31 * b13 + a32 * b23 + a33 * b33))"

fun matVec :: "Matrix3 \<Rightarrow> Vector3 \<Rightarrow> Vector3" where
  "matVec (r1, r2, r3) v = (dot r1 v, dot r2 v, dot r3 v)"

text \<open>The matrix of the rotation by the angle \<open>a\<close> about a principal axis: the linear map
  that \<open>rotateX\<close>, \<open>rotateY\<close> and \<open>rotateZ\<close> apply to a point.\<close>

fun axisRotationMatrix :: "Axis \<Rightarrow> real \<Rightarrow> Matrix3" where
  "axisRotationMatrix AxisX a = ((1, 0, 0), (0, cos a, - sin a), (0, sin a, cos a))"
| "axisRotationMatrix AxisY a = ((cos a, 0, sin a), (0, 1, 0), (- sin a, 0, cos a))"
| "axisRotationMatrix AxisZ a = ((cos a, - sin a, 0), (sin a, cos a, 0), (0, 0, 1))"

text \<open>The rotation that the Euler angles of a piece stand for.\<close>

definition rotationMatrix :: "Vector3 \<Rightarrow> Matrix3" where
  "rotationMatrix e = makeRotationFromQuaternion (setFromEuler e)"

text \<open>The matrix of a quaternion without the assumption of unit length; it agrees with
  \<open>makeRotationFromQuaternion\<close> on unit quaternions and is multiplicative.\<close>

fun homogeneousMatrix :: "Quaternion \<Rightarrow> Matrix3" where
  "homogeneousMatrix (x, y, z, w) =
     ((w * w + x * x - y * y - z * z, 2 * (x * y - w * z), 2 * (x * z + w * y)),
      (2 * (x * y + w * z), w * w - x * x + y * y - z * z, 2 * (y * z - w * x)),
      (2 * (x * z - w * y), 2 * (y * z + w * x), w * w - x * x - y * y + z * z))"

text \<open>The 24 rotations of the cube: the signed permutation matrices of determinant 1.\<close>

definition cubeRotations :: "Matrix3 list" where
  "cubeRotations =
     [((1, 0, 0), (0, 1, 0), (0, 0, 1)),
      ((1, 0, 0), (0, - 1, 0), (0, 0, - 1)),
      ((- 1, 0, 0), (0, 1, 0), (0, 0, - 1)),
      ((- 1, 0, 0), (0, - 1, 0), (0, 0, 1)),
      ((1, 0, 0), (0, 0, 1), (0, - 1, 0)),
      ((1, 0, 0), (0, 0, - 1), (0, 1, 0)),
      ((- 1, 0, 0), (0, 0, 1), (0, 1, 0)),
      ((- 1, 0, 0), (0, 0, - 1), (0, - 1, 0)),
      ((0, 1, 0), (1, 0, 0), (0, 0, - 1)),
      ((0, 1, 0), (- 1, 0, 0), (0, 0, 1)),
      ((0, - 1, 0), (1, 0, 0), (0, 0, 1)),
      ((0, - 1, 0), (- 1, 0, 0), (0, 0, - 1)),
      ((0, 1, 0), (0, 0, 1), (1, 0, 0)),
      ((0, 1, 0), (0, 0, - 1), (- 1, 0, 0)),
      ((0, - 1, 0), (0, 0, 1), (- 1, 0, 0)),
      ((0, - 1, 0), (0, 0, - 1), (1, 0, 0)),
      ((0, 0, 1), (1, 0, 0), (0, 1, 0)),
      ((0, 0, 1), (- 1, 0, 0), (0, - 1, 0)),
      ((0, 0, - 1), (1, 0, 0), (0, - 1, 0)),
      ((0, 0, - 1), (- 1, 0, 0), (0, 1, 0)),
      ((0, 0, 1), (0, 1, 0), (- 1, 0, 0)),
      ((0, 0, 1), (0, - 1, 0), (1, 0, 0)),
      ((0, 0, - 1), (0, 1, 0), (1, 0, 0)),
      ((0, 0, - 1), (0, - 1, 0), (- 1, 0, 0))]"

text \<open>Euler angles in the form \<open>setFromRotationMatrix\<close> produces, for a rotation of the cube.\<close>

definition canonicalEuler :: "Vector3 \<Rightarrow> bool" where
  "canonicalEuler e \<longleftrightarrow>
     rotationMatrix e \<in> set cubeRotations \<and> setFromRotationMatrix (rotationMatrix e) = e"


subsection \<open>States of the scheduler\<close>

text \<open>The angular step of a frame: four times the speed when more than five moves wait.\<close>

definition frameSpeed :: "CubeState \<Rightarrow> real" where
  "frameSpeed s =
     (if length (animationQueue s) > 5 then ANIMATION_SPEED * 4 else ANIMATION_SPEED)"

text \<open>The states the component reaches from its initial state by frames and by the
  handlers of the user interface.\<close>

inductive reachable :: "CubeState \<Rightarrow> bool" where
  init: "reachable initialState"
| frame: "reachable s \<Longrightarrow> reachable (useFrame s)"
| rotate: "reachable s \<Longrightarrow> reachable (triggerRotate move s)"
| scramble: "reachable s \<Longrightarrow> \<forall>i<25. 0 \<le> random i \<and> random i < 1 \<Longrightarrow>
     reachable (handleScramble random s)"
| reset: "reachable s \<Longrightarrow> reachable (handleReset s)"
| click: "reachable s \<Longrightarrow> c \<in> set (cubies s) \<Longrightarrow> reachable (handleCubieClick n c s)"
| background: "reachable s \<Longrightarrow> reachable (handleBackgroundClick s)"

definition schedulerInv :: "CubeState \<Rightarrow> bool" where
  "schedulerInv s \<longleftrightarrow>
     reachableCubies (cubies s) \<and>
     (case currentMove s of
        None \<Rightarrow> \<not> isAnimating s
      | Some cm \<Rightarrow> isAnimating s \<and> (\<exists>move. cm\<lparr>progress := 0\<rparr> = startMove move (cubies s)))"

text \<open>A state in the middle of a run: \<open>R\<close> has been in flight for ten frames at the normal
  speed, and six more moves have been queued since.\<close>

definition finishingState :: CubeState where
  "finishingState =
     initialState
       \<lparr>isAnimating := True,
        animationQueue := [U, U, U, U, U, U],
        currentMove := Some ((startMove R generateSolvedCube)\<lparr>progress := 1.5\<rparr>)\<rparr>"

subsection \<open>Partial sums of the series of the arc tangent\<close>

text \<open>The first \<open>n\<close> terms of \<open>x - x\<^sup>3/3 + x\<^sup>5/5 - \<dots>\<close>, used to bound \<open>\<pi>\<close> from both sides.\<close>

definition arctanSeries :: "real \<Rightarrow> nat \<Rightarrow> real" where
  "arctanSeries x n = (\<Sum>i<n. (- 1) ^ i * (1 / real (i * 2 + 1) * x ^ (i * 2 + 1)))"

subsection \<open>Center pieces\<close>

text \<open>The cell of the center piece of the face a move turns: the piece that the move
  rotates in place.\<close>

fun faceCenter :: "MoveType \<Rightarrow> Vector3" where
  "faceCenter R = (1, 0, 0)" | "faceCenter R' = (1, 0, 0)"
| "faceCenter L = (- 1, 0, 0)" | "faceCenter L' = (- 1, 0, 0)"
| "faceCenter U = (0, 1, 0)" | "faceCenter U' = (0, 1, 0)"
| "faceCenter D = (0, - 1, 0)" | "faceCenter D' = (0, - 1, 0)"
| "faceCenter F = (0, 0, 1)" | "faceCenter F' = (0, 0, 1)"
| "faceCenter B = (0, 0, - 1)" | "faceCenter B' = (0, 0, - 1)"

section \<open>Snapped positions\<close>

subsection \<open>Rounding and the parsed moves\<close>

lemma round_num_of_int [simp]: "round_num (of_int k) = of_int k"
  by (simp add: round_num_def)

lemma round_num_simps [simp]: "round_num 0 = 0" "round_num 1 = 1" "round_num (- 1) = - 1"
  by (simp_all add: round_num_def)

lemma round_cell: "x = - 1 \<or> x = 0 \<or> x = 1 \<Longrightarrow> round_num x = x" "x = - 1 \<or> x = 0 \<or> x = 1 \<Longrightarrow> round_num (- x) = - x"
  by auto

text \<open>The snap absorbs every error below one half.\<close>

lemma round_num_near:
  assumes "\<bar>v - of_int k\<bar> < 1 / 2"
  shows "round_num v = of_int k"
proof -
  have "of_int k \<le> v + 1 / 2" "v + 1 / 2 < of_int k + 1"
    using assms by linarith+
  then have "\<lfloor>v + 1 / 2\<rfloor> = k"
    by (rule floor_unique)
  then show ?thesis by (simp add: round_num_def)
qed

lemma round_num_near_cell:
  assumes "k = - 1 \<or> k = 0 \<or> k = 1" "\<bar>v - k\<bar> < 1 / 2"
  shows "round_num v = k"
  using assms round_num_near[of v "- 1"] round_num_near[of v 0] round_num_near[of v 1]
  by auto

lemma parseMove_simps:
  "parseMove R = (AxisX, 1, - 1)" "parseMove R' = (AxisX, 1, 1)"
  "parseMove L = (AxisX, - 1, 1)" "parseMove L' = (AxisX, - 1, - 1)"
  "parseMove U = (AxisY, 1, - 1)" "parseMove U' = (AxisY, 1, 1)"
  "parseMove D = (AxisY, - 1, 1)" "parseMove D' = (AxisY, - 1, - 1)"
  "parseMove F = (AxisZ, 1, - 1)" "parseMove F' = (AxisZ, 1, 1)"
  "parseMove B = (AxisZ, - 1, 1)" "parseMove B' = (AxisZ, - 1, - 1)"
  by (simp_all add: parseMove_def includesPrime_def)

lemma parseMove_cases:
  assumes "parseMove m = (ax, lay, d)"
  shows "(lay = 1 \<or> lay = - 1) \<and> (d = 1 \<or> d = - 1)"
  using assms by (cases m) (auto simp: parseMove_simps)


lemma startMove_fields [simp]:
  "move_type (startMove move cs) = move"
  "progress (startMove move cs) = 0"
  "axis (startMove move cs) = fst (parseMove move)"
  "layer (startMove move cs) = fst (snd (parseMove move))"
  "direction (startMove move cs) = snd (snd (parseMove move))"
  "activeCubieIds (startMove move cs) =
     getCubiesInLayer (fst (parseMove move)) (fst (snd (parseMove move))) cs"
  by (simp_all add: startMove_def split_def Let_def)

subsection \<open>The constant \<open>Math.PI\<close>\<close>

text \<open>Bounds on \<open>\<pi>\<close> from Machin's formula and the alternating series of the arc tangent:
  \<open>Math_PI\<close> lies strictly below \<open>\<pi>\<close>, by less than \<open>10\<^sup>-\<^sup>4\<close>. The sine and cosine of
  \<open>Math_PI / 2\<close> are therefore not 1 and 0.\<close>

lemma pi_gt_three: "3 < pi"
proof -
  have c: "cos (pi / 12) < 1"
    using cos_double_less_one[of "pi / 24"] pi_gt_zero pi_less_4 by simp
  have c0: "0 < cos (pi / 12)"
    using pi_gt_zero by (intro cos_gt_zero_pi) simp_all
  have "sin (pi / 6) = 2 * sin (pi / 12) * cos (pi / 12)"
    using sin_double[of "pi / 12"] by simp
  also have "\<dots> \<le> 2 * (pi / 12) * cos (pi / 12)"
    using sin_x_le_x[of "pi / 12"] c0 by (simp add: mult_right_mono)
  also have "\<dots> < 2 * (pi / 12) * 1"
    using c pi_gt_zero by simp
  finally have "1 / 2 < pi / 6" by (simp add: sin_30)
  then show ?thesis by simp
qed

lemma arctan_series_bounds:
  fixes x :: real
  assumes "0 \<le> x" "x \<le> 1"
  shows "arctanSeries x (2 * n) \<le> arctan x" "arctan x \<le> arctanSeries x (2 * n + 1)"
proof -
  let ?a = "\<lambda>n. 1 / real (n * 2 + 1) * x ^ (n * 2 + 1)"
  have ax: "\<bar>x\<bar> \<le> 1" using assms by simp
  have z: "?a \<longlonglongrightarrow> 0" using ax by (rule zeroseq_arctan_series)
  have p: "\<And>n. 0 \<le> ?a n" using assms by simp
  have m: "\<And>n. ?a (Suc n) \<le> ?a n"
  proof -
    fix n
    have "x ^ (Suc n * 2 + 1) = x ^ (n * 2 + 1) * (x * x)" by (simp add: algebra_simps)
    also have "\<dots> \<le> x ^ (n * 2 + 1) * 1"
      using assms by (intro mult_left_mono mult_le_one) simp_all
    finally have le: "x ^ (Suc n * 2 + 1) \<le> x ^ (n * 2 + 1)" by simp
    have "1 / real (Suc n * 2 + 1) * x ^ (Suc n * 2 + 1) \<le> 1 / real (n * 2 + 1) * x ^ (Suc n * 2 + 1)"
      using assms by (intro mult_right_mono) (simp_all add: field_simps)
    also have "\<dots> \<le> 1 / real (n * 2 + 1) * x ^ (n * 2 + 1)"
      using le by (intro mult_left_mono) simp_all
    finally show "?a (Suc n) \<le> ?a n" .
  qed
  have s: "arctan x = (\<Sum>k. (- 1) ^ k * ?a k)" using ax by (rule arctan_series)
  show "arctanSeries x (2 * n) \<le> arctan x"
    unfolding s arctanSeries_def by (rule summable_Leibniz'(2)[OF z p m])
  show "arctan x \<le> arctanSeries x (2 * n + 1)"
    unfolding s arctanSeries_def by (rule summable_Leibniz'(4)[OF z p m])
qed

lemma Math_PI_less_pi: "Math_PI < pi"
proof -
  have a: "arctanSeries (1 / 7) (2 * 5) \<le> arctan (1 / 7)"
    by (rule arctan_series_bounds) simp_all
  have b: "arctanSeries (3 / 79) (2 * 3) \<le> arctan (3 / 79)"
    by (rule arctan_series_bounds) simp_all
  have "Math_PI / 4 < 5 * arctanSeries (1 / 7) (2 * 5) + 2 * arctanSeries (3 / 79) (2 * 3)"
    by (simp add: Math_PI_def arctanSeries_def eval_nat_numeral)
  also have "\<dots> \<le> 5 * arctan (1 / 7) + 2 * arctan (3 / 79)"
    using a b by simp
  also have "\<dots> = pi / 4" by (rule machin_Euler)
  finally show ?thesis by simp
qed

lemma pi_less_31416: "pi < 3.1416"
proof -
  have a: "arctan (1 / 7) \<le> arctanSeries (1 / 7) (2 * 1 + 1)"
    by (rule arctan_series_bounds) simp_all
  have b: "arctan (3 / 79) \<le> arctanSeries (3 / 79) (2 * 1 + 1)"
    by (rule arctan_series_bounds) simp_all
  have "pi / 4 = 5 * arctan (1 / 7) + 2 * arctan (3 / 79)" by (rule machin_Euler[symmetric])
  also have "\<dots> \<le> 5 * arctanSeries (1 / 7) (2 * 1 + 1) + 2 * arctanSeries (3 / 79) (2 * 1 + 1)"
    using a b by simp
  also have "\<dots> < 3.1416 / 4"
    by (simp add: arctanSeries_def eval_nat_numeral)
  finally show ?thesis by simp
qed

lemma pi_less_33: "pi < 3.3"
  using pi_less_31416 by simp

lemma Math_PI_bounds: "3.1415 < Math_PI" "Math_PI < 3.1416"
  by (simp_all add: Math_PI_def)

lemma Math_PI_near: "\<bar>Math_PI - pi\<bar> \<le> 1 / 5"
  using Math_PI_less_pi pi_less_31416 Math_PI_bounds by simp

lemma sin_cos_products: "sin (t::real) * sin t + cos t * cos t = 1" "cos (t::real) * cos t + sin t * sin t = 1"
  by (simp_all add: algebra_simps flip: power2_eq_square)

lemma quarter_trig_near:
  assumes "\<bar>PI - pi\<bar> \<le> 2 * e" "0 \<le> e" "e \<le> 1"
  shows "\<bar>cos (PI / 2)\<bar> \<le> e" "1 - e * e \<le> sin (PI / 2)" "sin (PI / 2) \<le> 1"
proof -
  let ?t = "pi / 2 - PI / 2"
  have t: "\<bar>?t\<bar> \<le> e" using assms(1) by simp
  have c: "cos (PI / 2) = sin ?t" by (simp add: sin_diff)
  have s: "sin (PI / 2) = cos ?t" by (simp add: cos_diff)
  have "\<bar>sin ?t\<bar> \<le> \<bar>?t\<bar>" by (rule abs_sin_x_le_abs_x)
  with t show ce: "\<bar>cos (PI / 2)\<bar> \<le> e" unfolding c by linarith
  have "- (pi / 2) < ?t" "?t < pi / 2" using t assms(3) pi_gt_three by linarith+
  then have pos: "0 < cos ?t" by (rule cos_gt_zero_pi)
  have a: "\<bar>sin ?t\<bar> \<le> e" using ce unfolding c .
  have "\<bar>sin ?t\<bar> * \<bar>sin ?t\<bar> \<le> e * e"
    using a assms(2) by (intro mult_mono) simp_all
  then have "sin ?t * sin ?t \<le> e * e" by simp
  moreover have "cos ?t * cos ?t = 1 - sin ?t * sin ?t"
    using sin_cos_products(1)[of ?t] by simp
  ultimately have "1 - e * e \<le> cos ?t * cos ?t" by simp
  also have "\<dots> \<le> cos ?t * 1"
    using pos by (intro mult_left_mono) simp_all
  finally show "1 - e * e \<le> sin (PI / 2)" unfolding s by simp
  show "sin (PI / 2) \<le> 1" by simp
qed

lemma Math_PI_quarter:
  "0 < Math_PI / 2" "Math_PI / 2 < pi / 2" "0 < cos (Math_PI / 2)"
  "9999999 / 10000000 \<le> sin (Math_PI / 2)" "sin (Math_PI / 2) \<le> 1" "0 < sin (Math_PI / 2)"
proof -
  show a: "0 < Math_PI / 2" using Math_PI_bounds by simp
  show b: "Math_PI / 2 < pi / 2" using Math_PI_less_pi by simp
  show "0 < cos (Math_PI / 2)" using a b by (intro cos_gt_zero_pi) linarith+
  have "\<bar>Math_PI - pi\<bar> \<le> 2 * (1 / 10000)"
    using Math_PI_less_pi pi_less_31416 Math_PI_bounds by simp
  from quarter_trig_near(2)[OF this]
  show c: "9999999 / 10000000 \<le> sin (Math_PI / 2)" by simp
  show "sin (Math_PI / 2) \<le> 1" by simp
  show "0 < sin (Math_PI / 2)" using c by linarith
qed

subsection \<open>Quarter turns on the cells of the cube\<close>

text \<open>For a value \<open>PI\<close> of the constant within \<open>1/5\<close> of \<open>\<pi>\<close>, the rotation of a cell by
  \<open>d * (PI / 2)\<close> lies within one half of the exact quarter turn in every coordinate, and
  the snap maps it to the exact quarter turn: a bijection of the cells that keeps the
  turned layer. The snap does the same to every point within one half of a cell
  (\<open>roundVector_near\<close>), whatever arithmetic produced it. At \<open>Math_PI\<close> the snap is
  needed: before it, every cell that the quarter turn moves is off the grid
  (\<open>unsnapped_off_grid\<close>), which are 144 of the 162 combinations of a cell, an axis and a
  direction.\<close>

lemma cubeCells_iff:
  "(x, y, z) \<in> cubeCells \<longleftrightarrow> (x = - 1 \<or> x = 0 \<or> x = 1) \<and> (y = - 1 \<or> y = 0 \<or> y = 1) \<and> (z = - 1 \<or> z = 0 \<or> z = 1)"
  by (simp add: cubeCells_def)

lemma near_product:
  fixes a b :: real
  assumes "\<bar>a\<bar> \<le> 1" "\<bar>b\<bar> \<le> e"
  shows "\<bar>a * b\<bar> \<le> e"
proof -
  have "\<bar>a * b\<bar> = \<bar>a\<bar> * \<bar>b\<bar>" by (rule abs_mult)
  also have "\<dots> \<le> 1 * e" using assms by (intro mult_mono) simp_all
  finally show ?thesis by simp
qed

lemma near_quarter_turn:
  fixes c s :: real
  assumes "u = - 1 \<or> u = 0 \<or> u = 1" "w = - 1 \<or> w = 0 \<or> w = 1" "d = 1 \<or> d = - 1"
    and "\<bar>c\<bar> \<le> 1 / 10" "99 / 100 \<le> s" "s \<le> 1"
  shows "\<bar>(u * c - w * (d * s)) - (- (w * d))\<bar> < 1 / 2"
    and "\<bar>(u * (d * s) + w * c) - u * d\<bar> < 1 / 2"
proof -
  have u: "\<bar>u\<bar> \<le> 1" and w: "\<bar>w\<bar> \<le> 1" and wd: "\<bar>w * d\<bar> \<le> 1" and ud: "\<bar>u * d\<bar> \<le> 1"
    using assms(1,2,3) by auto
  have s: "\<bar>1 - s\<bar> \<le> 1 / 100" "\<bar>s - 1\<bar> \<le> 1 / 100" using assms(5,6) by simp_all
  have a: "\<bar>u * c\<bar> \<le> 1 / 10" "\<bar>w * c\<bar> \<le> 1 / 10"
    by (rule near_product[OF u assms(4)], rule near_product[OF w assms(4)])
  have b: "\<bar>(w * d) * (1 - s)\<bar> \<le> 1 / 100" "\<bar>(u * d) * (s - 1)\<bar> \<le> 1 / 100"
    by (rule near_product[OF wd s(1)], rule near_product[OF ud s(2)])
  have "(u * c - w * (d * s)) - (- (w * d)) = u * c + (w * d) * (1 - s)"
    by (simp add: algebra_simps)
  then show "\<bar>(u * c - w * (d * s)) - (- (w * d))\<bar> < 1 / 2"
    using a(1) b(1) by linarith
  have "(u * (d * s) + w * c) - u * d = (u * d) * (s - 1) + w * c"
    by (simp add: algebra_simps)
  then show "\<bar>(u * (d * s) + w * c) - u * d\<bar> < 1 / 2"
    using a(2) b(2) by linarith
qed

lemma snap_component:
  fixes c s :: real
  assumes "u = - 1 \<or> u = 0 \<or> u = 1" "w = - 1 \<or> w = 0 \<or> w = 1" "d = 1 \<or> d = - 1"
    and "\<bar>c\<bar> \<le> 1 / 10" "99 / 100 \<le> s" "s \<le> 1"
  shows "round_num (u * c - w * (d * s)) = - (w * d)"
    and "round_num (u * (d * s) + w * c) = u * d"
proof -
  have k1: "- (w * d) = - 1 \<or> - (w * d) = 0 \<or> - (w * d) = 1" using assms(2,3) by auto
  have k2: "u * d = - 1 \<or> u * d = 0 \<or> u * d = 1" using assms(1,3) by auto
  show "round_num (u * c - w * (d * s)) = - (w * d)"
    using k1 near_quarter_turn(1)[OF assms] by (rule round_num_near_cell)
  show "round_num (u * (d * s) + w * c) = u * d"
    using k2 near_quarter_turn(2)[OF assms] by (rule round_num_near_cell)
qed

lemma roundVector_near:
  assumes "(qx, qy, qz) \<in> cubeCells"
    and "\<bar>x - qx\<bar> < 1 / 2" "\<bar>y - qy\<bar> < 1 / 2" "\<bar>z - qz\<bar> < 1 / 2"
  shows "roundVector (x, y, z) = (qx, qy, qz)"
  using assms by (simp add: cubeCells_iff round_num_near_cell)

lemma rotate_quarter_at:
  assumes "p \<in> cubeCells" "d = 1 \<or> d = - 1" "\<bar>PI - pi\<bar> \<le> 1 / 5"
  shows "roundVector (rotateAxis ax p (d * (PI / 2))) = quarterTurn ax d p"
proof -
  obtain x y z where p: "p = (x, y, z)" by (cases p) auto
  from assms(1) have c: "x = - 1 \<or> x = 0 \<or> x = 1" "y = - 1 \<or> y = 0 \<or> y = 1" "z = - 1 \<or> z = 0 \<or> z = 1"
    by (simp_all add: p cubeCells_iff)
  define cq where "cq = cos (PI / 2)"
  define sq where "sq = sin (PI / 2)"
  have trig: "\<bar>cq\<bar> \<le> 1 / 10" "99 / 100 \<le> sq" "sq \<le> 1"
    using quarter_trig_near[of PI "1 / 10"] assms(3) by (simp_all add: cq_def sq_def)
  have cs: "cos (d * (PI / 2)) = cq" "sin (d * (PI / 2)) = d * sq"
    using assms(2) by (auto simp: cq_def sq_def)
  have r: "round_num x = x" "round_num y = y" "round_num z = z"
    using c by (simp_all add: round_cell)
  show ?thesis
  proof (cases ax)
    case AxisX
    have "roundVector (rotateAxis ax p (d * (PI / 2))) =
        (round_num x, round_num (y * cq - z * (d * sq)), round_num (y * (d * sq) + z * cq))"
      unfolding AxisX p by (simp only: rotateAxis.simps rotateX.simps roundVector.simps cs)
    also have "\<dots> = (x, - (z * d), y * d)"
      by (simp only: r snap_component[OF c(2) c(3) assms(2) trig])
    finally show ?thesis unfolding AxisX p by simp
  next
    case AxisY
    have "roundVector (rotateAxis ax p (d * (PI / 2))) =
        (round_num (x * cq + z * (d * sq)), round_num y, round_num (- x * (d * sq) + z * cq))"
      unfolding AxisY p by (simp only: rotateAxis.simps rotateY.simps roundVector.simps cs)
    also have "\<dots> = (round_num (z * (d * sq) + x * cq), round_num y, round_num (z * cq - x * (d * sq)))"
      by (simp add: algebra_simps)
    also have "\<dots> = (z * d, y, - (x * d))"
      by (simp only: r snap_component[OF c(3) c(1) assms(2) trig])
    finally show ?thesis unfolding AxisY p by simp
  next
    case AxisZ
    have "roundVector (rotateAxis ax p (d * (PI / 2))) =
        (round_num (x * cq - y * (d * sq)), round_num (x * (d * sq) + y * cq), round_num z)"
      unfolding AxisZ p by (simp only: rotateAxis.simps rotateZ.simps roundVector.simps cs)
    also have "\<dots> = (- (y * d), x * d, z)"
      by (simp only: r snap_component[OF c(1) c(2) assms(2) trig])
    finally show ?thesis unfolding AxisZ p by simp
  qed
qed

lemma getRotationResult_cell:
  "p \<in> cubeCells \<Longrightarrow> d = 1 \<or> d = - 1 \<Longrightarrow> getRotationResult p ax d = quarterTurn ax d p"
  unfolding getRotationResult_def Let_def by (rule rotate_quarter_at[OF _ _ Math_PI_near])

lemma quarterTurn_cells:
  "p \<in> cubeCells \<Longrightarrow> d = 1 \<or> d = - 1 \<Longrightarrow> quarterTurn ax d p \<in> cubeCells"
  by (cases p; cases ax) (auto simp: cubeCells_iff)

lemma quarterTurn_component:
  "component ax (quarterTurn ax d p) = component ax p"
  by (cases p; cases ax) auto

lemma quarterTurn_inverse:
  "d = 1 \<or> d = - 1 \<Longrightarrow> quarterTurn ax (- d) (quarterTurn ax d p) = p"
  by (cases p; cases ax) auto

lemma quarterTurn_four:
  "d = 1 \<or> d = - 1 \<Longrightarrow> quarterTurn ax d (quarterTurn ax d (quarterTurn ax d (quarterTurn ax d p))) = p"
  by (cases p; cases ax) auto

lemma round_component_cell:
  "p \<in> cubeCells \<Longrightarrow> round_num (component ax p) = component ax p"
  by (cases p; cases ax) (auto simp: cubeCells_iff)

lemma layerTurn_cells:
  "p \<in> cubeCells \<Longrightarrow> d = 1 \<or> d = - 1 \<Longrightarrow> layerTurn ax lay d p \<in> cubeCells"
  by (simp add: layerTurn_def quarterTurn_cells)

lemma layerTurn_inverse:
  "d = 1 \<or> d = - 1 \<Longrightarrow> layerTurn ax lay (- d) (layerTurn ax lay d p) = p"
  by (simp add: layerTurn_def quarterTurn_component quarterTurn_inverse)

lemma layerTurn_image:
  assumes "d = 1 \<or> d = - 1"
  shows "layerTurn ax lay d ` cubeCells = cubeCells"
proof
  show "layerTurn ax lay d ` cubeCells \<subseteq> cubeCells"
    using assms by (auto simp: layerTurn_cells)
  show "cubeCells \<subseteq> layerTurn ax lay d ` cubeCells"
  proof
    fix p assume p: "p \<in> cubeCells"
    from assms have d': "- d = 1 \<or> - d = - 1" by auto
    have "layerTurn ax lay d (layerTurn ax lay (- d) p) = p"
      using layerTurn_inverse[OF d', of ax lay p] by simp
    moreover have "layerTurn ax lay (- d) p \<in> cubeCells"
      using p d' by (rule layerTurn_cells)
    ultimately show "p \<in> layerTurn ax lay d ` cubeCells"
      by (metis imageI)
  qed
qed

lemma layerTurn_inj: 
  assumes "d = 1 \<or> d = - 1"
  shows "inj_on (layerTurn ax lay d) A"
  by (rule inj_on_inverseI[where g = "layerTurn ax lay (- d)"]) (simp add: layerTurn_inverse assms)

lemma quarter_displacement:
  "d = 1 \<or> d = - 1 \<Longrightarrow>
   lengthSq (subVectors (quarterTurn ax d p) p) =
     2 * (lengthSq p - component ax p * component ax p)"
  by (cases p; cases ax; elim disjE) (simp_all add: lengthSq_def algebra_simps)

lemma small_cell_squares:
  assumes "a = - 1 \<or> a = 0 \<or> a = 1" "b = - 1 \<or> b = 0 \<or> b = 1"
    and "2 * (a * a + b * b) < (0.1::real)"
  shows "a = 0 \<and> b = 0"
  using assms by (elim disjE) simp_all


lemma off_grid_pair:
  fixes c s :: real
  assumes "0 < c" "c \<le> 1 / 10" "99 / 100 \<le> s" "s \<le> 1"
    and "u = - 1 \<or> u = 0 \<or> u = 1" "w = - 1 \<or> w = 0 \<or> w = 1" "d = 1 \<or> d = - 1"
    and "u \<noteq> 0 \<or> w \<noteq> 0"
  shows "\<not> ((u * c - w * (d * s) = - 1 \<or> u * c - w * (d * s) = 0 \<or> u * c - w * (d * s) = 1) \<and>
            (u * (d * s) + w * c = - 1 \<or> u * (d * s) + w * c = 0 \<or> u * (d * s) + w * c = 1))"
  using assms(5,6,7,8)
  apply (elim disjE)
  apply simp_all
  using assms(1,2,3,4) apply linarith+
  done

lemma off_grid_pair_swapped:
  fixes c s :: real
  assumes "0 < c" "c \<le> 1 / 10" "99 / 100 \<le> s" "s \<le> 1"
    and "u = - 1 \<or> u = 0 \<or> u = 1" "w = - 1 \<or> w = 0 \<or> w = 1" "d = 1 \<or> d = - 1"
    and "u \<noteq> 0 \<or> w \<noteq> 0"
  shows "\<not> ((u * (d * s) + w * c = - 1 \<or> u * (d * s) + w * c = 0 \<or> u * (d * s) + w * c = 1) \<and>
            (u * c - w * (d * s) = - 1 \<or> u * c - w * (d * s) = 0 \<or> u * c - w * (d * s) = 1))"
  using off_grid_pair[OF assms] by blast

lemma unsnapped_off_grid:
  assumes "p \<in> cubeCells" "d = 1 \<or> d = - 1" "quarterTurn ax d p \<noteq> p"
  shows "rotateAxis ax p (d * (Math_PI / 2)) \<notin> cubeCells"
proof -
  obtain x y z where p: "p = (x, y, z)" by (cases p) auto
  from assms(1) have c: "x = - 1 \<or> x = 0 \<or> x = 1" "y = - 1 \<or> y = 0 \<or> y = 1" "z = - 1 \<or> z = 0 \<or> z = 1"
    by (simp_all add: p cubeCells_iff)
  define cq where "cq = cos (Math_PI / 2)"
  define sq where "sq = sin (Math_PI / 2)"
  have trig: "0 < cq" "cq \<le> 1 / 10" "99 / 100 \<le> sq" "sq \<le> 1"
    using Math_PI_quarter(3,4,5) quarter_trig_near(1)[of Math_PI "1 / 10"] Math_PI_near
    by (simp_all add: cq_def sq_def)
  have cs: "cos (d * (Math_PI / 2)) = cq" "sin (d * (Math_PI / 2)) = d * sq"
    using assms(2) by (auto simp: cq_def sq_def)
  show ?thesis
  proof (cases ax)
    case AxisX
    from assms(3) have n: "y \<noteq> 0 \<or> z \<noteq> 0"
      using assms(2) unfolding AxisX p by auto
    have "rotateAxis ax p (d * (Math_PI / 2)) = (x, y * cq - z * (d * sq), y * (d * sq) + z * cq)"
      unfolding AxisX p by (simp only: rotateAxis.simps rotateX.simps cs)
    then show ?thesis
      using off_grid_pair[OF trig c(2) c(3) assms(2) n] by (simp add: cubeCells_iff)
  next
    case AxisY
    from assms(3) have n: "z \<noteq> 0 \<or> x \<noteq> 0"
      using assms(2) unfolding AxisY p by auto
    have "rotateAxis ax p (d * (Math_PI / 2)) = (x * cq + z * (d * sq), y, - x * (d * sq) + z * cq)"
      unfolding AxisY p by (simp only: rotateAxis.simps rotateY.simps cs)
    also have "\<dots> = (z * (d * sq) + x * cq, y, z * cq - x * (d * sq))"
      by (simp add: algebra_simps)
    finally show ?thesis
      using off_grid_pair_swapped[OF trig c(3) c(1) assms(2) n] by (simp add: cubeCells_iff) blast
  next
    case AxisZ
    from assms(3) have n: "x \<noteq> 0 \<or> y \<noteq> 0"
      using assms(2) unfolding AxisZ p by auto
    have "rotateAxis ax p (d * (Math_PI / 2)) = (x * cq - y * (d * sq), x * (d * sq) + y * cq, z)"
      unfolding AxisZ p by (simp only: rotateAxis.simps rotateZ.simps cs)
    then show ?thesis
      using off_grid_pair[OF trig c(1) c(2) assms(2) n] by (simp add: cubeCells_iff) blast
  qed
qed

subsection \<open>The solved cube\<close>

lemma solvedPositions_eq:
  "solvedPositions =
    [(- 1, - 1, - 1), (- 1, - 1, 0), (- 1, - 1, 1), (- 1, 0, - 1), (- 1, 0, 0), (- 1, 0, 1),
     (- 1, 1, - 1), (- 1, 1, 0), (- 1, 1, 1),
     (0, - 1, - 1), (0, - 1, 0), (0, - 1, 1), (0, 0, - 1), (0, 0, 0), (0, 0, 1),
     (0, 1, - 1), (0, 1, 0), (0, 1, 1),
     (1, - 1, - 1), (1, - 1, 0), (1, - 1, 1), (1, 0, - 1), (1, 0, 0), (1, 0, 1),
     (1, 1, - 1), (1, 1, 0), (1, 1, 1)]"
  by (simp add: solvedPositions_def)

lemma distinct_solvedPositions: "distinct solvedPositions"
  by (simp add: solvedPositions_eq)

lemma set_solvedPositions: "set solvedPositions = cubeCells"
proof
  show "set solvedPositions \<subseteq> cubeCells"
    by (simp add: solvedPositions_eq cubeCells_def)
  show "cubeCells \<subseteq> set solvedPositions"
  proof
    fix p :: Vector3
    assume a: "p \<in> cubeCells"
    obtain x y z where p: "p = (x, y, z)" by (cases p) auto
    from a have "x = - 1 \<or> x = 0 \<or> x = 1" "y = - 1 \<or> y = 0 \<or> y = 1" "z = - 1 \<or> z = 0 \<or> z = 1"
      by (simp_all add: p cubeCells_iff)
    then show "p \<in> set solvedPositions"
      unfolding p by (elim disjE) (simp_all add: solvedPositions_eq)
  qed
qed

lemma length_solvedPositions: "length solvedPositions = 27"
  by (simp add: solvedPositions_eq)

lemma length_generateSolvedCube: "length generateSolvedCube = 27"
  by (simp add: generateSolvedCube_def length_solvedPositions)

lemma map_position_solved: "map position generateSolvedCube = solvedPositions"
  by (simp add: generateSolvedCube_def map_idI split_def enumerate_eq_zip comp_def length_solvedPositions)

lemma map_id_solved: "map id_num generateSolvedCube = [0..<27]"
  by (simp add: generateSolvedCube_def enumerate_eq_zip comp_def split_def length_solvedPositions)

lemma wellPlaced_solved: "wellPlaced generateSolvedCube"
  by (simp add: wellPlaced_def map_position_solved map_id_solved distinct_solvedPositions set_solvedPositions)

lemma solved_nth_26: "generateSolvedCube ! 26 = \<lparr>id_num = 26, position = (1, 1, 1), rotation = (0, 0, 0), initialPosition = (1, 1, 1)\<rparr>"
  by (simp add: generateSolvedCube_def solvedPositions_eq nth_enumerate_eq)

lemma solved_nth_25: "generateSolvedCube ! 25 = \<lparr>id_num = 25, position = (1, 1, 0), rotation = (0, 0, 0), initialPosition = (1, 1, 0)\<rparr>"
  by (simp add: generateSolvedCube_def solvedPositions_eq nth_enumerate_eq)

lemma solved_nth_22: "generateSolvedCube ! 22 = \<lparr>id_num = 22, position = (1, 0, 0), rotation = (0, 0, 0), initialPosition = (1, 0, 0)\<rparr>"
  by (simp add: generateSolvedCube_def solvedPositions_eq nth_enumerate_eq)




subsection \<open>Committing a move on a well placed cube\<close>

text \<open>Where the ids are distinct and the positions are the cells, the ids captured by
  \<open>getCubiesInLayer\<close> select exactly the pieces of the layer, so that the commit turns
  each piece according to its own position.\<close>

lemma in_layer_iff:
  assumes "wellPlaced cs" "c \<in> set cs"
  shows "id_num c \<in> set (getCubiesInLayer ax lay cs) \<longleftrightarrow> component ax (position c) = lay"
proof -
  have inj: "inj_on id_num (set cs)"
    using assms(1) by (simp add: wellPlaced_def distinct_map)
  have cell: "\<And>c'. c' \<in> set cs \<Longrightarrow> position c' \<in> cubeCells"
    using assms(1) by (auto simp: wellPlaced_def)
  show ?thesis
  proof
    assume "id_num c \<in> set (getCubiesInLayer ax lay cs)"
    then obtain c' where c': "c' \<in> set cs" "round_num (component ax (position c')) = lay" "id_num c' = id_num c"
      by (auto simp: getCubiesInLayer_def)
    from inj c'(1,3) assms(2) have "c' = c" by (auto dest: inj_onD)
    with c'(2) cell[OF assms(2)] show "component ax (position c) = lay"
      by (simp add: round_component_cell)
  next
    assume "component ax (position c) = lay"
    with cell[OF assms(2)] assms(2) show "id_num c \<in> set (getCubiesInLayer ax lay cs)"
      by (auto simp: getCubiesInLayer_def round_component_cell)
  qed
qed

lemma commitCubieAt_turnCubieAt:
  assumes "wellPlaced cs" "c \<in> set cs" "d = 1 \<or> d = - 1" "\<bar>PI - pi\<bar> \<le> 1 / 5"
  shows "commitCubieAt PI ax d (getCubiesInLayer ax lay cs) c = turnCubieAt PI ax lay d c"
proof -
  have "position c \<in> cubeCells" using assms(1,2) by (auto simp: wellPlaced_def)
  then have rq: "roundVector (rotateAxis ax (position c) (d * (PI / 2))) = quarterTurn ax d (position c)"
    using assms(3,4) by (rule rotate_quarter_at)
  show ?thesis
    using in_layer_iff[OF assms(1,2), of ax lay]
    unfolding commitCubieAt_def turnCubieAt_def turnRotationAt_def Let_def rq by simp
qed

lemma commitMoveAt_turnCubieAt:
  assumes "wellPlaced cs" "parseMove m = (ax, lay, d)" "\<bar>PI - pi\<bar> \<le> 1 / 5"
  shows "commitMoveAt PI m cs = map (turnCubieAt PI ax lay d) cs"
proof -
  from assms(2) have d: "d = 1 \<or> d = - 1" by (simp add: parseMove_cases)
  show ?thesis
    using assms(2)
    by (simp add: commitMoveAt_def commitCubiesAt_def commitCubieAt_turnCubieAt[OF assms(1) _ d assms(3)])
qed

lemma id_num_turnCubieAt [simp]: "id_num (turnCubieAt PI ax lay d c) = id_num c"
  by (simp add: turnCubieAt_def)

lemma initialPosition_turnCubieAt [simp]:
  "initialPosition (turnCubieAt PI ax lay d c) = initialPosition c"
  by (simp add: turnCubieAt_def)

lemma position_turnCubieAt:
  "position (turnCubieAt PI ax lay d c) = layerTurn ax lay d (position c)"
  by (simp add: turnCubieAt_def layerTurn_def)


lemma wellPlaced_commitMoveAt:
  assumes "wellPlaced cs" "\<bar>PI - pi\<bar> \<le> 1 / 5"
  shows "wellPlaced (commitMoveAt PI m cs)"
proof -
  obtain ax lay d where pm: "parseMove m = (ax, lay, d)" by (cases "parseMove m") auto
  then have d: "d = 1 \<or> d = - 1" by (simp add: parseMove_cases)
  have eq: "commitMoveAt PI m cs = map (turnCubieAt PI ax lay d) cs"
    using assms(1) pm assms(2) by (rule commitMoveAt_turnCubieAt)
  have pos: "map position (commitMoveAt PI m cs) = map (layerTurn ax lay d) (map position cs)"
    by (simp add: eq comp_def position_turnCubieAt)
  have ids: "map id_num (commitMoveAt PI m cs) = map id_num cs"
    by (simp add: eq comp_def)
  from assms(1) have a: "distinct (map id_num cs)" "distinct (map position cs)"
    "set (map position cs) = cubeCells"
    by (simp_all add: wellPlaced_def)
  have "distinct (map (layerTurn ax lay d) (map position cs))"
    using a(2) layerTurn_inj[OF d] by (simp only: distinct_map)
  moreover have "set (map (layerTurn ax lay d) (map position cs)) = cubeCells"
    using a(3) layerTurn_image[OF d, of ax lay] by (simp only: set_map)
  ultimately show ?thesis
    unfolding wellPlaced_def pos ids using a(1) by simp
qed

lemma reachableAt_wellPlaced:
  "reachableCubiesAt PI cs \<Longrightarrow> \<bar>PI - pi\<bar> \<le> 1 / 5 \<Longrightarrow> wellPlaced cs"
  by (induction rule: reachableCubiesAt.induct) (simp_all add: wellPlaced_solved wellPlaced_commitMoveAt)

lemma length_commitMoveAt [simp]: "length (commitMoveAt PI m cs) = length cs"
  by (simp add: commitMoveAt_def commitCubiesAt_def)

lemma reachableAt_length: "reachableCubiesAt PI cs \<Longrightarrow> length cs = 27"
  by (induction rule: reachableCubiesAt.induct) (simp_all add: length_generateSolvedCube)

lemma nth_commitMoveAt:
  assumes "wellPlaced cs" "parseMove m = (ax, lay, d)" "\<bar>PI - pi\<bar> \<le> 1 / 5" "i < length cs"
  shows "commitMoveAt PI m cs ! i = turnCubieAt PI ax lay d (cs ! i)"
  using assms(4) by (simp add: commitMoveAt_turnCubieAt[OF assms(1,2,3)])

lemma reachableAt_Math_PI_wellPlaced: "reachableCubiesAt Math_PI cs \<Longrightarrow> wellPlaced cs"
  by (rule reachableAt_wellPlaced[OF _ Math_PI_near])

lemma nth_commitMoveAt_Math_PI:
  assumes "reachableCubiesAt Math_PI cs" "i < 27"
  shows "commitMoveAt Math_PI m cs ! i =
    turnCubieAt Math_PI (fst (parseMove m)) (fst (snd (parseMove m))) (snd (snd (parseMove m))) (cs ! i)"
  using assms(2) reachableAt_length[OF assms(1)]
  by (intro nth_commitMoveAt[OF reachableAt_Math_PI_wellPlaced[OF assms(1)] _ Math_PI_near]) simp_all

text \<open>The idealised commit is the instance at \<open>\<pi>\<close>.\<close>

lemma commitMove_instance: "commitMove move cs = commitMoveAt pi move cs"
  by (simp add: commitMove_def commitMoveAt_def commitCubies_def commitCubiesAt_def commitCubie_def)


lemma turnCubie_unfold:
  "turnCubie ax lay d c =
     (if component ax (position c) = lay
      then c\<lparr>position := quarterTurn ax d (position c),
             rotation := turnRotation ax d (rotation c)\<rparr>
      else c)"
  by (simp add: turnCubie_def turnCubieAt_def turnRotation_def)

lemma commitMove_turnCubie:
  assumes "wellPlaced cs" "parseMove m = (ax, lay, d)"
  shows "commitMove m cs = map (turnCubie ax lay d) cs"
  unfolding commitMove_instance turnCubie_def
  using assms by (rule commitMoveAt_turnCubieAt) simp

lemma id_num_turnCubie [simp]: "id_num (turnCubie ax lay d c) = id_num c"
  by (simp add: turnCubie_def)

lemma position_turnCubie: "position (turnCubie ax lay d c) = layerTurn ax lay d (position c)"
  by (simp add: turnCubie_def position_turnCubieAt)

lemma wellPlaced_commitMove:
  assumes "wellPlaced cs"
  shows "wellPlaced (commitMove m cs)"
  unfolding commitMove_instance using assms by (rule wellPlaced_commitMoveAt) simp

lemma reachable_wellPlaced: "reachableCubies cs \<Longrightarrow> wellPlaced cs"
  by (induction rule: reachableCubies.induct) (simp_all add: wellPlaced_solved wellPlaced_commitMove)

lemma length_commitMove [simp]: "length (commitMove m cs) = length cs"
  by (simp add: commitMove_def commitCubies_def)

lemma reachable_length: "reachableCubies cs \<Longrightarrow> length cs = 27"
  by (induction rule: reachableCubies.induct) (simp_all add: generateSolvedCube_def length_solvedPositions)

lemma turned_nth_26:
  "commitMove R generateSolvedCube ! 26 =
     \<lparr>id_num = 26, position = (1, 1, - 1), rotation = turnRotation AxisX (- 1) (0, 0, 0),
      initialPosition = (1, 1, 1)\<rparr>"
proof -
  have "commitMove R generateSolvedCube = map (turnCubie AxisX 1 (- 1)) generateSolvedCube"
    using wellPlaced_solved by (rule commitMove_turnCubie) (simp add: parseMove_simps)
  then have "commitMove R generateSolvedCube ! 26 = turnCubie AxisX 1 (- 1) (generateSolvedCube ! 26)"
    by (simp add: length_generateSolvedCube)
  then show ?thesis
    by (simp add: solved_nth_26 turnCubie_unfold)
qed

subsection \<open>What four turns, and a turn and its counterpart, give back\<close>








section \<open>Orientations\<close>

subsection \<open>Unit quaternions and their matrices\<close>

lemma normSq_mult: "normSq (multiplyQuaternions a b) = normSq a * normSq b"
  by (cases a; cases b) (simp add: algebra_simps)

lemma normSq_axisAngle: "normSq (setFromAxisAngle (axisVector ax) a) = 1"
  by (cases ax) (simp_all add: axisVector_def Let_def sin_cos_products)

lemma mrfq_hom: "normSq q = 1 \<Longrightarrow> makeRotationFromQuaternion q = homogeneousMatrix q"
  by (cases q) (simp add: Let_def algebra_simps)

lemma hom_mult:
  "homogeneousMatrix (multiplyQuaternions a b) = matMul (homogeneousMatrix a) (homogeneousMatrix b)"
  by (cases a; cases b) (simp add: algebra_simps)

lemma mrfq_mult:
  assumes "normSq a = 1" "normSq b = 1"
  shows "makeRotationFromQuaternion (multiplyQuaternions a b) =
         matMul (makeRotationFromQuaternion a) (makeRotationFromQuaternion b)"
proof -
  have "normSq (multiplyQuaternions a b) = 1" using assms by (simp add: normSq_mult)
  then show ?thesis using assms by (simp add: mrfq_hom hom_mult)
qed

lemma half_angle:
  "1 - sin (a / 2) * (2 * sin (a / 2)) = cos (a::real)"
  "cos (a / 2) * (2 * sin (a / 2)) = sin a"
proof -
  have "cos a = cos (2 * (a / 2))" by simp
  also have "\<dots> = 1 - 2 * sin (a / 2) ^ 2" by (rule cos_double_sin)
  finally show "1 - sin (a / 2) * (2 * sin (a / 2)) = cos a"
    by (simp add: power2_eq_square algebra_simps)
  have "sin a = sin (2 * (a / 2))" by simp
  also have "\<dots> = 2 * sin (a / 2) * cos (a / 2)" by (rule sin_double)
  finally show "cos (a / 2) * (2 * sin (a / 2)) = sin a"
    by (simp add: algebra_simps)
qed

lemma mrfq_axisAngle:
  "makeRotationFromQuaternion (setFromAxisAngle (axisVector ax) a) = axisRotationMatrix ax a"
  by (cases ax) (simp_all add: axisVector_def Let_def half_angle)

lemma matVec_axisRotation: "matVec (axisRotationMatrix ax a) p = rotateAxis ax p a"
  by (cases p; cases ax) (simp_all add: algebra_simps)

subsection \<open>Euler angles\<close>

text \<open>The quaternion of Euler angles is the product of the three axis rotations, so its
  matrix is the product of their matrices; the commit of an orientation is the
  extraction of Euler angles from the quarter turn times the old matrix.\<close>

lemma setFromEuler_product:
  "setFromEuler (x, y, z) =
     multiplyQuaternions
       (multiplyQuaternions (setFromAxisAngle (axisVector AxisX) x)
          (setFromAxisAngle (axisVector AxisY) y))
       (setFromAxisAngle (axisVector AxisZ) z)"
  by (simp add: axisVector_def Let_def algebra_simps)

lemma normSq_setFromEuler: "normSq (setFromEuler e) = 1"
proof -
  obtain x y z where e: "e = (x, y, z)" by (cases e) auto
  show ?thesis
    unfolding e setFromEuler_product by (simp only: normSq_mult normSq_axisAngle mult_1)
qed

lemma rotationMatrix_product:
  "rotationMatrix (x, y, z) =
     matMul (matMul (axisRotationMatrix AxisX x) (axisRotationMatrix AxisY y))
       (axisRotationMatrix AxisZ z)"
  unfolding rotationMatrix_def setFromEuler_product
  by (simp only: mrfq_mult normSq_mult normSq_axisAngle mrfq_axisAngle mult_1)

lemma rotationMatrix_eq:
  "rotationMatrix (x, y, z) =
     ((cos y * cos z, - (cos y * sin z), sin y),
      (cos x * sin z + sin x * sin y * cos z, cos x * cos z - sin x * sin y * sin z, - (sin x * cos y)),
      (sin x * sin z - cos x * sin y * cos z, sin x * cos z + cos x * sin y * sin z, cos x * cos y))"
  by (simp add: rotationMatrix_product algebra_simps)


lemma turnRotationAt_matrix:
  "turnRotationAt PI ax d e =
     setFromRotationMatrix (matMul (axisRotationMatrix ax (d * (PI / 2))) (rotationMatrix e))"
  by (simp only: turnRotationAt_def setFromQuaternion_def premultiply_def mrfq_mult
        normSq_axisAngle normSq_setFromEuler mrfq_axisAngle rotationMatrix_def)

lemma turnRotation_matrix:
  "turnRotation ax d e =
     setFromRotationMatrix (matMul (axisRotationMatrix ax (d * (pi / 2))) (rotationMatrix e))"
  unfolding turnRotation_def by (rule turnRotationAt_matrix)

subsection \<open>The 24 rotations of the cube\<close>

text \<open>The Euler angles extracted from a rotation of the cube give that rotation back, and
  the rotations of the cube are closed under the quarter turns.\<close>

lemma atan2_simps [simp]:
  "atan2 0 1 = 0" "atan2 1 0 = pi / 2" "atan2 (- 1) 0 = - (pi / 2)" "atan2 0 (- 1) = pi"
  "atan2 0 0 = 0"
  by (simp_all add: atan2_def)

lemma clamp_simps [simp]: "clamp 0 (- 1) 1 = 0" "clamp 1 (- 1) 1 = 1" "clamp (- 1) (- 1) 1 = - 1"
  by (simp_all add: clamp_def)

lemma roundtrip_cubeRotations:
  "M \<in> set cubeRotations \<Longrightarrow> rotationMatrix (setFromRotationMatrix M) = M"
  unfolding cubeRotations_def set_simps insert_iff empty_iff
  by (elim disjE FalseE) (simp_all add: rotationMatrix_eq)

lemma quarter_matrix:
  "axisRotationMatrix AxisX (pi / 2) = ((1, 0, 0), (0, 0, - 1), (0, 1, 0))"
  "axisRotationMatrix AxisX (- (pi / 2)) = ((1, 0, 0), (0, 0, 1), (0, - 1, 0))"
  "axisRotationMatrix AxisY (pi / 2) = ((0, 0, 1), (0, 1, 0), (- 1, 0, 0))"
  "axisRotationMatrix AxisY (- (pi / 2)) = ((0, 0, - 1), (0, 1, 0), (1, 0, 0))"
  "axisRotationMatrix AxisZ (pi / 2) = ((0, - 1, 0), (1, 0, 0), (0, 0, 1))"
  "axisRotationMatrix AxisZ (- (pi / 2)) = ((0, 1, 0), (- 1, 0, 0), (0, 0, 1))"
  by simp_all

lemma closure_pos:
  "M \<in> set cubeRotations \<Longrightarrow> matMul (axisRotationMatrix ax (pi / 2)) M \<in> set cubeRotations"
  unfolding cubeRotations_def set_simps insert_iff empty_iff
  by (cases ax; elim disjE FalseE) (simp_all only: quarter_matrix, simp_all)

lemma closure_neg:
  "M \<in> set cubeRotations \<Longrightarrow> matMul (axisRotationMatrix ax (- (pi / 2))) M \<in> set cubeRotations"
  unfolding cubeRotations_def set_simps insert_iff empty_iff
  by (cases ax; elim disjE FalseE) (simp_all only: quarter_matrix, simp_all)

lemma closure_cubeRotations:
  assumes "M \<in> set cubeRotations" "d = 1 \<or> d = - 1"
  shows "matMul (axisRotationMatrix ax (d * (pi / 2))) M \<in> set cubeRotations"
  using assms(2) closure_pos[OF assms(1), of ax] closure_neg[OF assms(1), of ax] by auto


lemma turnRotation_step:
  assumes "rotationMatrix e \<in> set cubeRotations" "d = 1 \<or> d = - 1"
  shows "rotationMatrix (turnRotation ax d e) =
           matMul (axisRotationMatrix ax (d * (pi / 2))) (rotationMatrix e)"
  unfolding turnRotation_matrix
  by (rule roundtrip_cubeRotations) (rule closure_cubeRotations[OF assms])

lemma canonicalEuler_turnRotation:
  assumes "canonicalEuler e" "d = 1 \<or> d = - 1"
  shows "canonicalEuler (turnRotation ax d e)"
proof -
  from assms(1) have M: "rotationMatrix e \<in> set cubeRotations" by (simp add: canonicalEuler_def)
  have step: "rotationMatrix (turnRotation ax d e) =
      matMul (axisRotationMatrix ax (d * (pi / 2))) (rotationMatrix e)"
    using M assms(2) by (rule turnRotation_step)
  have "rotationMatrix (turnRotation ax d e) \<in> set cubeRotations"
    unfolding step using M assms(2) by (rule closure_cubeRotations)
  moreover have "setFromRotationMatrix (rotationMatrix (turnRotation ax d e)) = turnRotation ax d e"
    unfolding step by (rule turnRotation_matrix[symmetric])
  ultimately show ?thesis by (simp add: canonicalEuler_def)
qed

lemma quarter_matrix_four:
  assumes "d = 1 \<or> d = - 1"
  shows "matMul (axisRotationMatrix ax (d * (pi / 2)))
          (matMul (axisRotationMatrix ax (d * (pi / 2)))
            (matMul (axisRotationMatrix ax (d * (pi / 2)))
              (matMul (axisRotationMatrix ax (d * (pi / 2))) M))) = M"
proof -
  obtain a11 a12 a13 a21 a22 a23 a31 a32 a33
    where M: "M = ((a11, a12, a13), (a21, a22, a23), (a31, a32, a33))"
    by (metis prod.exhaust)
  from assms show ?thesis
  proof
    assume "d = 1" then show ?thesis unfolding M by (cases ax) simp_all
  next
    assume "d = - 1" then show ?thesis unfolding M by (cases ax) simp_all
  qed
qed

lemma quarter_matrix_inverse:
  assumes "d = 1 \<or> d = - 1"
  shows "matMul (axisRotationMatrix ax (- d * (pi / 2)))
            (matMul (axisRotationMatrix ax (d * (pi / 2))) M) = M"
proof -
  obtain a11 a12 a13 a21 a22 a23 a31 a32 a33
    where M: "M = ((a11, a12, a13), (a21, a22, a23), (a31, a32, a33))"
    by (metis prod.exhaust)
  from assms show ?thesis
  proof
    assume "d = 1" then show ?thesis unfolding M by (cases ax) simp_all
  next
    assume "d = - 1" then show ?thesis unfolding M by (cases ax) simp_all
  qed
qed

lemma turnRotation_four:
  assumes "canonicalEuler e" "d = 1 \<or> d = - 1"
  shows "turnRotation ax d (turnRotation ax d (turnRotation ax d (turnRotation ax d e))) = e"
proof -
  let ?t = "turnRotation ax d"
  let ?Q = "axisRotationMatrix ax (d * (pi / 2))"
  have c1: "canonicalEuler (?t e)" using assms by (rule canonicalEuler_turnRotation)
  have c2: "canonicalEuler (?t (?t e))" using c1 assms(2) by (rule canonicalEuler_turnRotation)
  have s0: "rotationMatrix (?t e) = matMul ?Q (rotationMatrix e)"
    using assms by (simp add: turnRotation_step canonicalEuler_def)
  have s1: "rotationMatrix (?t (?t e)) = matMul ?Q (rotationMatrix (?t e))"
    using c1 assms(2) by (simp add: turnRotation_step canonicalEuler_def)
  have s2: "rotationMatrix (?t (?t (?t e))) = matMul ?Q (rotationMatrix (?t (?t e)))"
    using c2 assms(2) by (simp add: turnRotation_step canonicalEuler_def)
  have "?t (?t (?t (?t e))) = setFromRotationMatrix (matMul ?Q (rotationMatrix (?t (?t (?t e)))))"
    by (rule turnRotation_matrix)
  also have "\<dots> = setFromRotationMatrix (matMul ?Q (matMul ?Q (matMul ?Q (matMul ?Q (rotationMatrix e)))))"
    by (simp only: s2 s1 s0)
  also have "\<dots> = setFromRotationMatrix (rotationMatrix e)"
    by (simp only: quarter_matrix_four[OF assms(2)])
  also have "\<dots> = e" using assms(1) by (simp add: canonicalEuler_def)
  finally show ?thesis .
qed

lemma turnRotation_inverse:
  assumes "canonicalEuler e" "d = 1 \<or> d = - 1"
  shows "turnRotation ax (- d) (turnRotation ax d e) = e"
proof -
  let ?t = "turnRotation ax d"
  have s0: "rotationMatrix (?t e) = matMul (axisRotationMatrix ax (d * (pi / 2))) (rotationMatrix e)"
    using assms by (simp add: turnRotation_step canonicalEuler_def)
  have "turnRotation ax (- d) (?t e) =
      setFromRotationMatrix (matMul (axisRotationMatrix ax (- d * (pi / 2))) (rotationMatrix (?t e)))"
    by (rule turnRotation_matrix)
  also have "\<dots> = setFromRotationMatrix (rotationMatrix e)"
    by (simp only: s0 quarter_matrix_inverse[OF assms(2)])
  also have "\<dots> = e" using assms(1) by (simp add: canonicalEuler_def)
  finally show ?thesis .
qed

subsection \<open>Orientations of the reachable cubes\<close>





lemma turnCubie_four:
  assumes "canonicalEuler (rotation c)" "d = 1 \<or> d = - 1"
  shows "turnCubie ax lay d (turnCubie ax lay d (turnCubie ax lay d (turnCubie ax lay d c))) = c"
  using assms
  by (simp add: turnCubie_unfold quarterTurn_component quarterTurn_four turnRotation_four)

lemma turnCubie_inverse:
  assumes "canonicalEuler (rotation c)" "d = 1 \<or> d = - 1"
  shows "turnCubie ax lay (- d) (turnCubie ax lay d c) = c"
  using assms
  by (simp add: turnCubie_unfold quarterTurn_component quarterTurn_inverse turnRotation_inverse)

subsection \<open>Orientations with the constant \<open>Math_PI\<close>\<close>

























section \<open>The scheduler\<close>

subsection \<open>Single frames\<close>

lemma commitCubies_progress [simp]: "commitCubies (cm\<lparr>progress := p\<rparr>) cs = commitCubies cm cs"
  by (simp add: commitCubies_def)

lemma commitCubies_startMove:
  "cm\<lparr>progress := 0\<rparr> = startMove move cs \<Longrightarrow> commitCubies cm cs = commitMove move cs"
  by (metis commitCubies_progress commitMove_def)

lemma useFrame_animating:
  assumes "isAnimating s" "currentMove s = Some cm"
  shows "useFrame s =
    (if progress cm + frameSpeed s \<ge> TOTAL_ROTATION
     then s\<lparr>cubies := commitCubies cm (cubies s), isAnimating := False, currentMove := None\<rparr>
     else s\<lparr>currentMove := Some (cm\<lparr>progress := progress cm + frameSpeed s\<rparr>)\<rparr>)"
  using assms by (simp add: useFrame_def dequeueStep_def animateStep_def frameSpeed_def Let_def)

lemma frameSpeed_small: "frameSpeed s < TOTAL_ROTATION"
  using pi_ge_two by (simp add: frameSpeed_def TOTAL_ROTATION_def ANIMATION_SPEED_def)

lemma useFrame_idle_queue:
  assumes "\<not> isAnimating s" "animationQueue s = move # q"
  shows "useFrame s =
    s\<lparr>animationQueue := q, isAnimating := True,
      currentMove := Some ((startMove move (cubies s))
         \<lparr>progress := (if length q > 5 then ANIMATION_SPEED * 4 else ANIMATION_SPEED)\<rparr>)\<rparr>"
proof -
  have p0: "progress (startMove move (cubies s)) = 0"
    by simp
  have "(if length q > 5 then ANIMATION_SPEED * 4 else ANIMATION_SPEED) < TOTAL_ROTATION"
    using frameSpeed_small[of "s\<lparr>animationQueue := q\<rparr>"] by (simp add: frameSpeed_def)
  then show ?thesis
    using assms by (simp add: useFrame_def dequeueStep_def animateStep_def Let_def p0)
qed

lemma dequeueStep_idle_empty:
  "\<not> isAnimating s \<Longrightarrow> animationQueue s = [] \<Longrightarrow> dequeueStep s = s"
  by (simp add: dequeueStep_def)

lemma animateStep_idle: "\<not> isAnimating s \<Longrightarrow> animateStep s = s"
  by (simp add: animateStep_def split: option.splits)

lemma useFrame_idle_empty:
  "\<not> isAnimating s \<Longrightarrow> animationQueue s = [] \<Longrightarrow> useFrame s = s"
  by (simp add: useFrame_def dequeueStep_idle_empty animateStep_idle)

lemma funpow_useFrame_idle_empty:
  "\<not> isAnimating s \<Longrightarrow> animationQueue s = [] \<Longrightarrow> (useFrame ^^ n) s = s"
  by (induction n) (simp_all add: useFrame_idle_empty)

subsection \<open>The invariant of the reachable states\<close>

text \<open>In every state the component reaches, the cube is one reached by committed moves, and
  a move in flight holds the ids captured from the current cube.\<close>

lemma schedulerInv_init: "schedulerInv initialState"
  by (simp add: schedulerInv_def initialState_def reachableCubies.solved)

lemma schedulerInv_dequeueStep: "schedulerInv s \<Longrightarrow> schedulerInv (dequeueStep s)"
  by (auto simp: schedulerInv_def dequeueStep_def startMove_def split_def Let_def
      split: option.splits)

lemma schedulerInv_animateStep:
  assumes "schedulerInv s"
  shows "schedulerInv (animateStep s)"
proof (cases "currentMove s")
  case None
  then show ?thesis using assms by (simp add: animateStep_def)
next
  case (Some cm)
  with assms obtain move where a: "isAnimating s" "reachableCubies (cubies s)"
      "cm\<lparr>progress := 0\<rparr> = startMove move (cubies s)"
    by (auto simp: schedulerInv_def)
  have c: "commitCubies cm (cubies s) = commitMove move (cubies s)"
    using a(3) by (rule commitCubies_startMove)
  show ?thesis
    using Some a by (auto simp: animateStep_def schedulerInv_def Let_def c reachableCubies.commit)
qed

lemma schedulerInv_useFrame: "schedulerInv s \<Longrightarrow> schedulerInv (useFrame s)"
  by (simp add: useFrame_def schedulerInv_dequeueStep schedulerInv_animateStep)

lemma triggerRotate_fields [simp]:
  "cubies (triggerRotate move s) = cubies s"
  "currentMove (triggerRotate move s) = currentMove s"
  "isAnimating (triggerRotate move s) = isAnimating s"
  by (simp_all add: triggerRotate_def)

lemma fold_triggerRotate_fields [simp]:
  "cubies (fold (\<lambda>r. triggerRotate (f r)) rs s) = cubies s"
  "currentMove (fold (\<lambda>r. triggerRotate (f r)) rs s) = currentMove s"
  "isAnimating (fold (\<lambda>r. triggerRotate (f r)) rs s) = isAnimating s"
  by (induction rs arbitrary: s) simp_all

lemma schedulerInv_cong:
  "cubies t = cubies s \<Longrightarrow> currentMove t = currentMove s \<Longrightarrow> isAnimating t = isAnimating s \<Longrightarrow>
   schedulerInv s \<Longrightarrow> schedulerInv t"
  by (simp add: schedulerInv_def split: option.splits)

lemma selectionEffect_fields [simp]:
  "cubies (selectionEffect s) = cubies s"
  "currentMove (selectionEffect s) = currentMove s"
  "isAnimating (selectionEffect s) = isAnimating s"
  "animationQueue (selectionEffect s) = animationQueue s"
  "availableFaces (selectionEffect s) = availableFaces s"
  by (simp_all add: selectionEffect_def)

lemma reachable_schedulerInv: "reachable s \<Longrightarrow> schedulerInv s"
proof (induction rule: reachable.induct)
  case init
  show ?case by (rule schedulerInv_init)
next
  case (frame s)
  then show ?case by (simp add: schedulerInv_useFrame)
next
  case (rotate s move)
  then show ?case by (auto intro: schedulerInv_cong[of _ s])
next
  case (scramble s random)
  then show ?case by (auto intro: schedulerInv_cong[of _ s] simp: handleScramble_def scrambleCube_def)
next
  case (reset s)
  show ?case by (simp add: schedulerInv_def handleReset_def resetCube_def reachableCubies.solved)
next
  case (click s c n)
  then show ?case by (auto intro: schedulerInv_cong[of _ s] simp: handleCubieClick_def)
next
  case (background s)
  then show ?case by (auto intro: schedulerInv_cong[of _ s] simp: handleBackgroundClick_def)
qed

lemma reachable_cubies: "reachable s \<Longrightarrow> reachableCubies (cubies s)"
  by (drule reachable_schedulerInv) (simp add: schedulerInv_def)

lemma scheduler_cells_invariant:
  "reachable s \<Longrightarrow>
     length (cubies s) = 27 \<and> distinct (map position (cubies s)) \<and>
     set (map position (cubies s)) = cubeCells"
  using reachable_wellPlaced[OF reachable_cubies, of s] reachable_length[OF reachable_cubies, of s]
  by (simp add: wellPlaced_def)

lemma queue_fold_triggerRotate:
  "animationQueue (fold (\<lambda>i. triggerRotate (f i)) ns s) = animationQueue s @ map f ns"
  by (induction ns arbitrary: s) (simp_all add: triggerRotate_def)

lemma scramble_enqueues_25:
  "length (animationQueue (scrambleCube random s)) = length (animationQueue s) + 25"
  by (simp add: scrambleCube_def queue_fold_triggerRotate)

subsection \<open>Whole animations\<close>

text \<open>At the normal speed a queued move is committed in its eleventh frame, counting
  the frame that takes it from the queue.\<close>

lemma useFrame_advance:
  assumes "isAnimating s" "currentMove s = Some cm" "length (animationQueue s) \<le> 5"
    and "progress cm + real n * ANIMATION_SPEED < TOTAL_ROTATION"
  shows "(useFrame ^^ n) s =
           s\<lparr>currentMove := Some (cm\<lparr>progress := progress cm + real n * ANIMATION_SPEED\<rparr>)\<rparr>"
  using assms(4)
proof (induction n)
  case 0
  show ?case using assms(2) by simp
next
  case (Suc n)
  have pos: "0 \<le> ANIMATION_SPEED" by (simp add: ANIMATION_SPEED_def)
  from Suc.prems have lt: "progress cm + real n * ANIMATION_SPEED < TOTAL_ROTATION"
    using pos by (simp add: algebra_simps)
  let ?cm = "cm\<lparr>progress := progress cm + real n * ANIMATION_SPEED\<rparr>"
  let ?s = "s\<lparr>currentMove := Some ?cm\<rparr>"
  have fs: "frameSpeed ?s = ANIMATION_SPEED"
    using assms(3) by (simp add: frameSpeed_def)
  have nlt: "\<not> progress ?cm + frameSpeed ?s \<ge> TOTAL_ROTATION"
    unfolding fs using Suc.prems by (simp add: algebra_simps)
  have ua: "useFrame ?s =
      (if progress ?cm + frameSpeed ?s \<ge> TOTAL_ROTATION
       then ?s\<lparr>cubies := commitCubies ?cm (cubies ?s), isAnimating := False, currentMove := None\<rparr>
       else ?s\<lparr>currentMove := Some (?cm\<lparr>progress := progress ?cm + frameSpeed ?s\<rparr>)\<rparr>)"
    by (rule useFrame_animating) (simp_all add: assms(1))
  have "(useFrame ^^ Suc n) s = useFrame ?s"
    using Suc.IH[OF lt] by simp
  also have "\<dots> = ?s\<lparr>currentMove := Some (?cm\<lparr>progress := progress ?cm + frameSpeed ?s\<rparr>)\<rparr>"
    unfolding ua using nlt by (simp only: if_False)
  also have "\<dots> = s\<lparr>currentMove := Some (cm\<lparr>progress := progress cm + real (Suc n) * ANIMATION_SPEED\<rparr>)\<rparr>"
    unfolding fs by (simp add: algebra_simps)
  finally show ?case .
qed

lemma useFrame_complete_move:
  assumes "\<not> isAnimating s" "animationQueue s = move # q" "length q \<le> 5"
  shows "(useFrame ^^ 11) s =
           s\<lparr>animationQueue := q, isAnimating := False, currentMove := None,
             cubies := commitMove move (cubies s)\<rparr>"
proof -
  let ?cm1 = "(startMove move (cubies s))\<lparr>progress := ANIMATION_SPEED\<rparr>"
  let ?s1 = "s\<lparr>animationQueue := q, isAnimating := True, currentMove := Some ?cm1\<rparr>"
  let ?cm10 = "?cm1\<lparr>progress := progress ?cm1 + real 9 * ANIMATION_SPEED\<rparr>"
  let ?s10 = "?s1\<lparr>currentMove := Some ?cm10\<rparr>"
  have s1: "useFrame s = ?s1"
    using assms by (simp add: useFrame_idle_queue)
  have "progress ?cm1 + real 9 * ANIMATION_SPEED < TOTAL_ROTATION"
    using pi_gt_three by (simp add: ANIMATION_SPEED_def TOTAL_ROTATION_def)
  then have s10: "(useFrame ^^ 9) ?s1 = ?s10"
    using assms(3) by (intro useFrame_advance) simp_all
  have fs: "frameSpeed ?s10 = ANIMATION_SPEED"
    using assms(3) by (simp add: frameSpeed_def)
  have "progress ?cm10 + frameSpeed ?s10 \<ge> TOTAL_ROTATION"
    unfolding fs using pi_less_33 by (simp add: ANIMATION_SPEED_def TOTAL_ROTATION_def)
  then have s11: "useFrame ?s10 =
      ?s10\<lparr>cubies := commitCubies ?cm10 (cubies ?s10), isAnimating := False, currentMove := None\<rparr>"
    by (subst useFrame_animating[of ?s10 ?cm10]) simp_all
  have "(useFrame ^^ 11) s = useFrame ((useFrame ^^ 9) (useFrame s))"
    by (simp add: eval_nat_numeral funpow_swap1)
  also have "\<dots> = useFrame ?s10" by (simp only: s1 s10)
  also have "\<dots> = s\<lparr>animationQueue := q, isAnimating := False, currentMove := None,
             cubies := commitMove move (cubies s)\<rparr>"
    unfolding s11 by (simp add: commitMove_def)
  finally show ?thesis .
qed

lemma useFrame_run_queue:
  assumes "\<not> isAnimating s" "currentMove s = None" "animationQueue s = ms" "length ms \<le> 6"
  shows "(useFrame ^^ (11 * length ms)) s =
           s\<lparr>animationQueue := [], cubies := fold commitMove ms (cubies s)\<rparr>"
  using assms
proof (induction ms arbitrary: s)
  case Nil
  then show ?case by simp
next
  case (Cons m ms)
  let ?s' = "s\<lparr>animationQueue := ms, isAnimating := False, currentMove := None,
             cubies := commitMove m (cubies s)\<rparr>"
  have first: "(useFrame ^^ 11) s = ?s'"
    using Cons.prems by (intro useFrame_complete_move) simp_all
  have rest: "(useFrame ^^ (11 * length ms)) ?s' =
      ?s'\<lparr>animationQueue := [], cubies := fold commitMove ms (cubies ?s')\<rparr>"
    using Cons.prems by (intro Cons.IH) simp_all
  have "11 * length (m # ms) = 11 * length ms + 11" by simp
  then have "(useFrame ^^ (11 * length (m # ms))) s = (useFrame ^^ (11 * length ms)) ((useFrame ^^ 11) s)"
    by (simp only: funpow_add comp_apply)
  also have "\<dots> = ?s'\<lparr>animationQueue := [], cubies := fold commitMove ms (cubies ?s')\<rparr>"
    by (simp only: first rest)
  also have "\<dots> = s\<lparr>animationQueue := [], cubies := fold commitMove (m # ms) (cubies s)\<rparr>"
    using Cons.prems by simp
  finally show ?case .
qed

lemma run_into_second_move:
  "(useFrame ^^ 14) (triggerRotate R' (triggerRotate U (triggerRotate R initialState))) =
     initialState\<lparr>cubies := commitMove R generateSolvedCube, animationQueue := [R'],
       isAnimating := True,
       currentMove := Some ((startMove U (commitMove R generateSolvedCube))\<lparr>progress := 0.45\<rparr>)\<rparr>"
proof -
  let ?s0 = "triggerRotate R' (triggerRotate U (triggerRotate R initialState))"
  let ?s11 = "initialState\<lparr>animationQueue := [U, R'], cubies := commitMove R generateSolvedCube\<rparr>"
  let ?cm = "(startMove U (commitMove R generateSolvedCube))\<lparr>progress := ANIMATION_SPEED\<rparr>"
  let ?s12 = "initialState\<lparr>animationQueue := [R'], cubies := commitMove R generateSolvedCube,
       isAnimating := True, currentMove := Some ?cm\<rparr>"
  have "(useFrame ^^ 11) ?s0 =
      ?s0\<lparr>animationQueue := [U, R'], isAnimating := False, currentMove := None,
             cubies := commitMove R (cubies ?s0)\<rparr>"
    by (rule useFrame_complete_move) (simp_all add: triggerRotate_def initialState_def)
  then have s11: "(useFrame ^^ 11) ?s0 = ?s11"
    by (simp add: triggerRotate_def initialState_def)
  have s12: "useFrame ?s11 = ?s12"
    by (subst useFrame_idle_queue[of ?s11 U "[R']"]) (simp_all add: initialState_def)
  have "progress ?cm + real 2 * ANIMATION_SPEED < TOTAL_ROTATION"
    using pi_gt_three by (simp add: ANIMATION_SPEED_def TOTAL_ROTATION_def)
  then have "(useFrame ^^ 2) ?s12 =
      ?s12\<lparr>currentMove := Some (?cm\<lparr>progress := progress ?cm + real 2 * ANIMATION_SPEED\<rparr>)\<rparr>"
    by (intro useFrame_advance) (simp_all add: initialState_def)
  then have s14: "(useFrame ^^ 2) ?s12 =
     initialState\<lparr>cubies := commitMove R generateSolvedCube, animationQueue := [R'],
       isAnimating := True,
       currentMove := Some ((startMove U (commitMove R generateSolvedCube))\<lparr>progress := 0.45\<rparr>)\<rparr>"
    by (simp add: initialState_def ANIMATION_SPEED_def)
  have "(14::nat) = 2 + (1 + 11)" by simp
  then have "(useFrame ^^ 14) ?s0 = (useFrame ^^ 2) (useFrame ((useFrame ^^ 11) ?s0))"
    by (simp only: funpow_add comp_apply) simp
  then show ?thesis
    by (simp only: s11 s12 s14)
qed

lemma finishingState_run:
  "(triggerRotate U ^^ 6) ((useFrame ^^ 9) (useFrame (triggerRotate R initialState))) = finishingState"
proof -
  let ?s1 = "initialState\<lparr>animationQueue := [], isAnimating := True,
      currentMove := Some ((startMove R generateSolvedCube)\<lparr>progress := ANIMATION_SPEED\<rparr>)\<rparr>"
  let ?s10 = "initialState\<lparr>animationQueue := [], isAnimating := True,
      currentMove := Some ((startMove R generateSolvedCube)\<lparr>progress := 1.5\<rparr>)\<rparr>"
  have s1: "useFrame (triggerRotate R initialState) = ?s1"
    by (simp add: useFrame_idle_queue[of _ R "[]"] triggerRotate_def initialState_def)
  have "ANIMATION_SPEED + real 9 * ANIMATION_SPEED < TOTAL_ROTATION"
    using pi_gt_three by (simp add: ANIMATION_SPEED_def TOTAL_ROTATION_def)
  then have "(useFrame ^^ 9) ?s1 =
      ?s1\<lparr>currentMove := Some ((startMove R generateSolvedCube)\<lparr>progress := ANIMATION_SPEED\<rparr>
          \<lparr>progress := progress ((startMove R generateSolvedCube)\<lparr>progress := ANIMATION_SPEED\<rparr>)
             + real 9 * ANIMATION_SPEED\<rparr>)\<rparr>"
    by (intro useFrame_advance) simp_all
  also have "\<dots> = ?s10"
    by (simp add: ANIMATION_SPEED_def)
  finally have s10: "(useFrame ^^ 9) ?s1 = ?s10" .
  have fin: "(triggerRotate U ^^ 6) ?s10 = finishingState"
    by (simp add: finishingState_def triggerRotate_def initialState_def eval_nat_numeral)
  show ?thesis
    by (simp only: s1 s10 fin)
qed

lemma reachable_funpow_useFrame: "reachable s \<Longrightarrow> reachable ((useFrame ^^ n) s)"
  by (induction n) (simp_all add: reachable.frame)

lemma reachable_funpow_triggerRotate: "reachable s \<Longrightarrow> reachable ((triggerRotate move ^^ n) s)"
  by (induction n) (simp_all add: reachable.rotate)

lemma reachable_finishingState: "reachable finishingState"
  unfolding finishingState_run[symmetric]
  by (intro reachable_funpow_triggerRotate reachable_funpow_useFrame reachable.intros)

lemma finishingState_fields:
  "isAnimating finishingState"
  "currentMove finishingState = Some ((startMove R generateSolvedCube)\<lparr>progress := 1.5\<rparr>)"
  "animationQueue finishingState = [U, U, U, U, U, U]"
  "cubies finishingState = generateSolvedCube"
  "frameSpeed finishingState = 0.6"
  by (simp_all add: finishingState_def initialState_def frameSpeed_def ANIMATION_SPEED_def)

lemma finishingState_completes: "1.5 + frameSpeed finishingState \<ge> TOTAL_ROTATION"
  using pi_half_less_two by (simp add: finishingState_fields TOTAL_ROTATION_def)

section \<open>Selection and arrows\<close>

subsection \<open>The legal moves of a click and the snapped normal\<close>

lemma validFaces_corner_edge:
  "roundVector pos = (1, 1, 1) \<Longrightarrow> validFaces pos = [''R'', ''U'', ''F'']"
  "roundVector pos = (1, 1, 0) \<Longrightarrow> validFaces pos = [''R'', ''U'']"
  by (simp_all add: validFaces_def)

lemma validFaces_center:
  "roundVector pos = faceCenter move \<Longrightarrow>
     validFaces pos = [take 1 (moveCode move), take 1 (moveCode move)]"
  by (cases move) (simp_all add: validFaces_def)

lemma handleCubieClick_faces:
  "\<not> isAnimating s \<Longrightarrow> availableFaces (handleCubieClick n c s) = validFaces (position c)"
  by (simp add: handleCubieClick_def)

lemma snapNormal_dominant_x:
  assumes "\<bar>ny\<bar> < \<bar>nx\<bar>" "\<bar>nz\<bar> < \<bar>nx\<bar>"
  shows "snapNormal (nx, ny, nz) = (sgn nx, 0, 0)"
proof -
  define k where "k = 1 / (if vlength (nx, ny, nz) = 0 then 1 else vlength (nx, ny, nz))"
  have "0 \<le> vlength (nx, ny, nz)" by (simp add: vlength_def lengthSq_def)
  then have k: "0 < k" by (simp add: k_def)
  have n: "normalize (nx, ny, nz) = (nx * k, ny * k, nz * k)"
    by (simp add: normalize_def k_def Let_def)
  have a: "\<bar>ny * k\<bar> < \<bar>nx * k\<bar>" "\<bar>nz * k\<bar> < \<bar>nx * k\<bar>"
    using assms k by (simp_all add: abs_mult)
  have s: "sgn (nx * k) = sgn nx" using k by (simp add: sgn_mult)
  show ?thesis
    using a by (simp add: snapNormal_def n Let_def s max_def)
qed

lemma snapNormal_dominant_y:
  assumes "\<bar>nx\<bar> < \<bar>ny\<bar>" "\<bar>nz\<bar> < \<bar>ny\<bar>"
  shows "snapNormal (nx, ny, nz) = (0, sgn ny, 0)"
proof -
  define k where "k = 1 / (if vlength (nx, ny, nz) = 0 then 1 else vlength (nx, ny, nz))"
  have "0 \<le> vlength (nx, ny, nz)" by (simp add: vlength_def lengthSq_def)
  then have k: "0 < k" by (simp add: k_def)
  have n: "normalize (nx, ny, nz) = (nx * k, ny * k, nz * k)"
    by (simp add: normalize_def k_def Let_def)
  have a: "\<bar>nx * k\<bar> < \<bar>ny * k\<bar>" "\<bar>nz * k\<bar> < \<bar>ny * k\<bar>"
    using assms k by (simp_all add: abs_mult)
  have s: "sgn (ny * k) = sgn ny" using k by (simp add: sgn_mult)
  show ?thesis
    using a by (simp add: snapNormal_def n Let_def s max_def)
qed

lemma snapNormal_dominant_z:
  assumes "\<bar>nx\<bar> < \<bar>nz\<bar>" "\<bar>ny\<bar> < \<bar>nz\<bar>"
  shows "snapNormal (nx, ny, nz) = (0, 0, sgn nz)"
proof -
  define k where "k = 1 / (if vlength (nx, ny, nz) = 0 then 1 else vlength (nx, ny, nz))"
  have "0 \<le> vlength (nx, ny, nz)" by (simp add: vlength_def lengthSq_def)
  then have k: "0 < k" by (simp add: k_def)
  have n: "normalize (nx, ny, nz) = (nx * k, ny * k, nz * k)"
    by (simp add: normalize_def k_def Let_def)
  have a: "\<bar>nx * k\<bar> < \<bar>nz * k\<bar>" "\<bar>ny * k\<bar> < \<bar>nz * k\<bar>"
    using assms k by (simp_all add: abs_mult)
  have s: "sgn (nz * k) = sgn nz" using k by (simp add: sgn_mult)
  show ?thesis
    using a by (simp add: snapNormal_def n Let_def s max_def)
qed

subsection \<open>The arrows of a center piece\<close>

lemma faceCenter_cell: "faceCenter move \<in> cubeCells"
  by (cases move) (simp_all add: cubeCells_def)

lemma applyAxisAngle_zero: "applyAxisAngle v ax 0 = v"
  by (cases v; cases ax) (simp add: applyAxisAngle_def)

lemma normalize_axis:
  "c \<noteq> 0 \<Longrightarrow> normalize (c, 0, 0) = (sgn c, 0, 0)"
  "c \<noteq> 0 \<Longrightarrow> normalize (0, c, 0) = (0, sgn c, 0)"
  "c \<noteq> 0 \<Longrightarrow> normalize (0, 0, c) = (0, 0, sgn c)"
  by (simp_all add: normalize_def vlength_def lengthSq_def sgn_real_def abs_if)

text \<open>The table \<open>moveDefs\<close> of the arrow component and the \<open>switch\<close> of the frame callback
  agree on the axis and the signed direction of every move, and the lookup never fails.\<close>

lemma moveDefs_parseMove:
  "moveDefs (baseCode move) =
     Some (fst (parseMove move),
           if includesPrime move then - snd (snd (parseMove move)) else snd (snd (parseMove move)))"
  by (cases move) (simp_all add: moveDefs_def baseCode_def parseMove_simps includesPrime_def)

lemma generateArrow_defined: "generateArrow p n move \<noteq> None"
  by (cases p; cases move)
     (simp_all add: generateArrow_def moveDefs_def baseCode_def Let_def split: option.splits)

lemma center_displacement:
  "d = 1 \<or> d = - 1 \<Longrightarrow>
   subVectors (getRotationResult (faceCenter move) (fst (parseMove move)) d) (faceCenter move) = (0, 0, 0)"
  by (cases move) (simp_all add: getRotationResult_cell cubeCells_def parseMove_simps)

lemma center_only_faceCenter:
  assumes "p \<in> cubeCells" "component (fst (parseMove move)) p = fst (snd (parseMove move))"
    and "lengthSq (subVectors
           (getRotationResult p (fst (parseMove move)) (snd (snd (parseMove move)))) p) < 0.1"
  shows "p = faceCenter move"
proof -
  obtain x y z where p: "p = (x, y, z)" by (cases p) auto
  from assms(1) have c: "x = - 1 \<or> x = 0 \<or> x = 1" "y = - 1 \<or> y = 0 \<or> y = 1" "z = - 1 \<or> z = 0 \<or> z = 1"
    by (simp_all add: p cubeCells_iff)
  have d: "snd (snd (parseMove move)) = 1 \<or> snd (snd (parseMove move)) = - 1"
    using parseMove_cases[of move] by (cases "parseMove move") simp
  have g: "getRotationResult p (fst (parseMove move)) (snd (snd (parseMove move))) =
      quarterTurn (fst (parseMove move)) (snd (snd (parseMove move))) p"
    using assms(1) d by (rule getRotationResult_cell)
  have l: "2 * (lengthSq p - component (fst (parseMove move)) p * component (fst (parseMove move)) p) < 0.1"
    using assms(3) unfolding g quarter_displacement[OF d] .
  show ?thesis
  proof (cases "fst (parseMove move)")
    case AxisX
    with l have "2 * (y * y + z * z) < 0.1" by (simp add: p lengthSq_def)
    with c have "y = 0 \<and> z = 0" by (intro small_cell_squares)
    with assms(2) AxisX show ?thesis
      unfolding p by (cases move) (simp_all add: parseMove_simps)
  next
    case AxisY
    with l have "2 * (x * x + z * z) < 0.1" by (simp add: p lengthSq_def)
    with c have "x = 0 \<and> z = 0" by (intro small_cell_squares)
    with assms(2) AxisY show ?thesis
      unfolding p by (cases move) (simp_all add: parseMove_simps)
  next
    case AxisZ
    with l have "2 * (x * x + y * y) < 0.1" by (simp add: p lengthSq_def)
    with c have "x = 0 \<and> y = 0" by (intro small_cell_squares)
    with assms(2) AxisZ show ?thesis
      unfolding p by (cases move) (simp_all add: parseMove_simps)
  qed
qed

lemma generateArrow_R': "generateArrow (1, 0, 0) (1, 0, 0) R' =
    Some [\<lparr>arrow_key = moveCode R' @ ''-center'', arrow_position = (1.6, 0.35, 0),
           arrow_direction = (0, 0, 1), arrow_label = R', arrow_color = ''#ffffff''\<rparr>]"
  by (simp add: generateArrow_def moveDefs_def baseCode_def includesPrime_def Let_def getRotationResult_cell cubeCells_def lengthSq_def axisVector_def applyAxisAngle_zero RING_OFFSET_def FACE_OFFSET_def normalize_axis)

lemma generateArrow_R: "generateArrow (1, 0, 0) (1, 0, 0) R =
    Some [\<lparr>arrow_key = moveCode R @ ''-center'', arrow_position = (1.6, 0.35, 0),
           arrow_direction = (0, 0, - 1), arrow_label = R, arrow_color = ''#ffffff''\<rparr>]"
  by (simp add: generateArrow_def moveDefs_def baseCode_def includesPrime_def Let_def getRotationResult_cell cubeCells_def lengthSq_def axisVector_def applyAxisAngle_zero RING_OFFSET_def FACE_OFFSET_def normalize_axis)

lemma generateArrow_center_iff:
  "generateArrow (faceCenter move) n move = Some [] \<longleftrightarrow>
     \<not> \<bar>dot (axisVector (fst (parseMove move))) n\<bar> > 0.9"
proof -
  obtain nx ny nz where n: "n = (nx, ny, nz)" by (cases n) auto
  show ?thesis
    unfolding n
    by (cases move)
      (simp_all add: generateArrow_def moveDefs_def baseCode_def includesPrime_def Let_def
        getRotationResult_cell cubeCells_def lengthSq_def axisVector_def parseMove_simps)
qed

lemma generateArrow_counterpart_center:
  "generateArrow (faceCenter move) n (counterpart move) = Some [] \<longleftrightarrow>
   generateArrow (faceCenter move) n move = Some []"
proof -
  have "faceCenter (counterpart move) = faceCenter move"
       "fst (parseMove (counterpart move)) = fst (parseMove move)"
    by (cases move; simp add: parseMove_simps)+
  then show ?thesis
    using generateArrow_center_iff[of "counterpart move" n] generateArrow_center_iff[of move n]
    by simp
qed

lemma addArrow_center_primed:
  "addArrow (faceCenter move) (fst (parseMove move)) (fst (snd (parseMove move))) move = [] \<longleftrightarrow>
     includesPrime move"
  by (cases move)
     (simp_all add: addArrow_def startsWith_def includesPrime_def Let_def
        getRotationResult_cell cubeCells_def lengthSq_def parseMove_simps)

section \<open>The properties\<close>

text \<open>
  C1. After any sequence of committed moves starting from the solved cube, the logical
  positions of the 27 pieces are exactly the integer triples of \<open>{-1, 0, 1}\<^sup>3\<close>: the
  cube has 27 pieces, no two pieces share a position, and the set of the positions is
  the set of the 27 cells, so every component is exactly -1, 0 or 1. The commit is the
  one with the constant \<open>Math_PI\<close>, where the rotated positions are off the grid and the
  snap puts them on it.
\<close>

theorem positions_permutation:
  "reachableCubiesAt Math_PI cs \<Longrightarrow>
     length cs = 27 \<and> distinct (map position cs) \<and> set (map position cs) = cubeCells"
  using reachableAt_Math_PI_wellPlaced[of cs] reachableAt_length[of Math_PI cs]
  by (simp add: wellPlaced_def)

text \<open>The cube after \<open>R\<close> and \<open>U\<close>; and for the piece at \<open>(1, 1, 1)\<close> of the solved cube,
  turned by \<open>R\<close>: the rotated position before the snap is not a cell, the committed
  position is the cell \<open>(1, 1, -1)\<close>.\<close>

theorem positions_permutation_witness:
  "reachableCubiesAt Math_PI (commitMoveAt Math_PI U (commitMoveAt Math_PI R generateSolvedCube)) \<and>
   length (commitMoveAt Math_PI U (commitMoveAt Math_PI R generateSolvedCube)) = 27 \<and>
   distinct (map position (commitMoveAt Math_PI U (commitMoveAt Math_PI R generateSolvedCube))) \<and>
   set (map position (commitMoveAt Math_PI U (commitMoveAt Math_PI R generateSolvedCube))) = cubeCells \<and>
   position (generateSolvedCube ! 26) = (1, 1, 1) \<and>
   rotateAxis AxisX (1, 1, 1) (- 1 * (Math_PI / 2)) \<notin> cubeCells \<and>
   position (commitMoveAt Math_PI R generateSolvedCube ! 26) = (1, 1, - 1)"
proof -
  have r: "reachableCubiesAt Math_PI (commitMoveAt Math_PI U (commitMoveAt Math_PI R generateSolvedCube))"
    by (intro reachableCubiesAt.intros)
  have o: "rotateAxis AxisX (1, 1, 1) (- 1 * (Math_PI / 2)) \<notin> cubeCells"
    by (rule unsnapped_off_grid) (simp_all add: cubeCells_iff)
  have p: "position (commitMoveAt Math_PI R generateSolvedCube ! 26) = (1, 1, - 1)"
    by (simp add: nth_commitMoveAt_Math_PI[OF reachableCubiesAt.solvedAt] parseMove_simps
        turnCubieAt_def solved_nth_26)
  show ?thesis
    using r o p positions_permutation[OF r] by (simp add: solved_nth_26)
qed







text \<open>
  C4. A reset, in any state of the scheduler (also in the middle of an animation, with
  moves waiting), leaves the cube equal to the freshly generated solved cube, the queue
  empty and no move in flight; the interrupted move is not applied, neither in part nor
  by any later frame.
\<close>

theorem reset_unconditional:
  "cubies (resetCube s) = generateSolvedCube \<and>
   animationQueue (resetCube s) = [] \<and>
   currentMove (resetCube s) = None \<and>
   \<not> isAnimating (resetCube s) \<and>
   (useFrame ^^ n) (resetCube s) = resetCube s"
proof -
  have "(useFrame ^^ n) (resetCube s) = resetCube s"
    by (rule funpow_useFrame_idle_empty) (simp_all add: resetCube_def)
  then show ?thesis by (simp add: resetCube_def)
qed

text \<open>The scenario of the solved cube with \<open>R\<close>, \<open>U\<close> and \<open>R'\<close> queued, reset after 14
  frames: \<open>R\<close> is committed, \<open>U\<close> is in flight and \<open>R'\<close> waits; the reset gives the
  solved cube, an empty queue and an idle scheduler, and the next 20 frames change
  nothing.\<close>

theorem reset_unconditional_witness:
  "isAnimating ((useFrame ^^ 14) (triggerRotate R' (triggerRotate U (triggerRotate R initialState)))) \<and>
   animationQueue ((useFrame ^^ 14) (triggerRotate R' (triggerRotate U (triggerRotate R initialState))))
     = [R'] \<and>
   cubies ((useFrame ^^ 14) (triggerRotate R' (triggerRotate U (triggerRotate R initialState))))
     \<noteq> generateSolvedCube \<and>
   resetCube ((useFrame ^^ 14) (triggerRotate R' (triggerRotate U (triggerRotate R initialState))))
     = initialState \<and>
   (useFrame ^^ 20)
     (resetCube ((useFrame ^^ 14) (triggerRotate R' (triggerRotate U (triggerRotate R initialState)))))
     = initialState"
proof -
  let ?s = "(useFrame ^^ 14) (triggerRotate R' (triggerRotate U (triggerRotate R initialState)))"
  have "position (commitMove R generateSolvedCube ! 26) \<noteq> position (generateSolvedCube ! 26)"
    by (simp add: turned_nth_26 solved_nth_26)
  then have ne: "commitMove R generateSolvedCube \<noteq> generateSolvedCube"
    by auto
  have r: "resetCube ?s = initialState"
    by (simp add: run_into_second_move resetCube_def initialState_def)
  show ?thesis
    using ne reset_unconditional[of ?s 20] unfolding r
    by (simp add: run_into_second_move)
qed

text \<open>
  C5, as stated: on the frame in which the progress of the move in flight reaches or
  exceeds \<open>\<pi>/2\<close>, the scheduler commits the move with the exact signed angle, clears the
  move and, when moves are waiting, begins the next one in that same frame. The last
  part fails: in \<open>finishingState\<close> (reached by \<open>finishingState_run\<close>) the frame commits
  \<open>R\<close> and ends idle, with all six waiting moves still in the queue.
\<close>

theorem next_move_same_frame_counterexample:
  "isAnimating finishingState \<and>
   currentMove finishingState = Some ((startMove R generateSolvedCube)\<lparr>progress := 1.5\<rparr>) \<and>
   1.5 + frameSpeed finishingState \<ge> TOTAL_ROTATION \<and>
   animationQueue finishingState = [U, U, U, U, U, U] \<and>
   cubies (useFrame finishingState) = commitMove R generateSolvedCube \<and>
   currentMove (useFrame finishingState) = None \<and>
   \<not> isAnimating (useFrame finishingState) \<and>
   animationQueue (useFrame finishingState) = [U, U, U, U, U, U]"
  using finishingState_completes
  by (simp add: finishingState_fields useFrame_animating[OF finishingState_fields(1,2)] commitMove_def)

text \<open>
  C5, amended: on the frame in which the progress of the move in flight reaches or
  exceeds \<open>\<pi>/2\<close>, the scheduler commits the move: every active piece is turned by the
  exact signed angle \<open>direction * \<pi>/2\<close> and snapped, whatever the progress value reached;
  the move in flight is cleared, the scheduler is idle and the queue is left as it was.
  A waiting move begins in the following frame, which takes it from the queue, captures
  its layer from the committed cube and advances it by one step.
\<close>

theorem commit_on_completion:
  assumes "isAnimating s" "currentMove s = Some cm"
    and "progress cm + frameSpeed s \<ge> TOTAL_ROTATION"
  shows "cubies (useFrame s) =
           map (commitCubie (axis cm) (direction cm) (activeCubieIds cm)) (cubies s) \<and>
         (\<forall>i < length (cubies s). id_num (cubies s ! i) \<in> set (activeCubieIds cm) \<longrightarrow>
            position (cubies (useFrame s) ! i) =
              roundVector (rotateAxis (axis cm) (position (cubies s ! i)) (direction cm * (pi / 2)))) \<and>
         (\<forall>p. p + frameSpeed s \<ge> TOTAL_ROTATION \<longrightarrow>
            cubies (useFrame (s\<lparr>currentMove := Some (cm\<lparr>progress := p\<rparr>)\<rparr>)) = cubies (useFrame s)) \<and>
         currentMove (useFrame s) = None \<and>
         \<not> isAnimating (useFrame s) \<and>
         animationQueue (useFrame s) = animationQueue s \<and>
         (\<forall>move q. animationQueue s = move # q \<longrightarrow>
            useFrame (useFrame s) =
              (useFrame s)\<lparr>animationQueue := q, isAnimating := True,
                currentMove := Some ((startMove move (cubies (useFrame s)))
                  \<lparr>progress := (if length q > 5 then ANIMATION_SPEED * 4 else ANIMATION_SPEED)\<rparr>)\<rparr>)"
proof -
  have u: "useFrame s =
      s\<lparr>cubies := commitCubies cm (cubies s), isAnimating := False, currentMove := None\<rparr>"
    using assms by (simp add: useFrame_animating)
  have pos: "\<And>i. i < length (cubies s) \<Longrightarrow> id_num (cubies s ! i) \<in> set (activeCubieIds cm) \<Longrightarrow>
      position (cubies (useFrame s) ! i) =
        roundVector (rotateAxis (axis cm) (position (cubies s ! i)) (direction cm * (pi / 2)))"
    by (simp add: u commitCubies_def commitCubie_def commitCubieAt_def Let_def)
  have ind: "\<And>p. p + frameSpeed s \<ge> TOTAL_ROTATION \<Longrightarrow>
      cubies (useFrame (s\<lparr>currentMove := Some (cm\<lparr>progress := p\<rparr>)\<rparr>)) = cubies (useFrame s)"
  proof -
    fix p assume p: "p + frameSpeed s \<ge> TOTAL_ROTATION"
    let ?s = "s\<lparr>currentMove := Some (cm\<lparr>progress := p\<rparr>)\<rparr>"
    have "isAnimating ?s" "currentMove ?s = Some (cm\<lparr>progress := p\<rparr>)" "frameSpeed ?s = frameSpeed s"
      using assms(1) by (simp_all add: frameSpeed_def)
    then show "cubies (useFrame ?s) = cubies (useFrame s)"
      using p by (simp add: useFrame_animating u)
  qed
  have nxt: "\<And>move q. animationQueue s = move # q \<Longrightarrow>
            useFrame (useFrame s) =
              (useFrame s)\<lparr>animationQueue := q, isAnimating := True,
                currentMove := Some ((startMove move (cubies (useFrame s)))
                  \<lparr>progress := (if length q > 5 then ANIMATION_SPEED * 4 else ANIMATION_SPEED)\<rparr>)\<rparr>"
  proof -
    fix move q assume q: "animationQueue s = move # q"
    have "\<not> isAnimating (useFrame s)" "animationQueue (useFrame s) = move # q"
      by (simp_all add: u q)
    then show "useFrame (useFrame s) =
              (useFrame s)\<lparr>animationQueue := q, isAnimating := True,
                currentMove := Some ((startMove move (cubies (useFrame s)))
                  \<lparr>progress := (if length q > 5 then ANIMATION_SPEED * 4 else ANIMATION_SPEED)\<rparr>)\<rparr>"
      by (rule useFrame_idle_queue)
  qed
  have rest: "cubies (useFrame s) =
           map (commitCubie (axis cm) (direction cm) (activeCubieIds cm)) (cubies s)"
    "currentMove (useFrame s) = None" "\<not> isAnimating (useFrame s)"
    "animationQueue (useFrame s) = animationQueue s"
    by (simp_all add: u commitCubies_def)
  show ?thesis
    using pos ind nxt rest by blast
qed

theorem commit_on_completion_witness:
  "isAnimating finishingState \<and>
   currentMove finishingState = Some ((startMove R generateSolvedCube)\<lparr>progress := 1.5\<rparr>) \<and>
   progress ((startMove R generateSolvedCube)\<lparr>progress := 1.5\<rparr>) + frameSpeed finishingState
     \<ge> TOTAL_ROTATION \<and>
   cubies (useFrame finishingState) = commitMove R generateSolvedCube \<and>
   position (cubies (useFrame finishingState) ! 26) = (1, 1, - 1) \<and>
   cubies (useFrame (finishingState
      \<lparr>currentMove := Some ((startMove R generateSolvedCube)\<lparr>progress := 2\<rparr>)\<rparr>)) =
     cubies (useFrame finishingState) \<and>
   currentMove (useFrame finishingState) = None \<and>
   \<not> isAnimating (useFrame finishingState) \<and>
   animationQueue (useFrame finishingState) = [U, U, U, U, U, U] \<and>
   currentMove (useFrame (useFrame finishingState)) =
     Some ((startMove U (commitMove R generateSolvedCube))\<lparr>progress := 0.15\<rparr>) \<and>
   animationQueue (useFrame (useFrame finishingState)) = [U, U, U, U, U]"
proof -
  let ?cm = "(startMove R generateSolvedCube)\<lparr>progress := 1.5\<rparr>"
  have h3: "progress ?cm + frameSpeed finishingState \<ge> TOTAL_ROTATION"
    using finishingState_completes by simp
  note t = commit_on_completion[OF finishingState_fields(1,2) h3]
  have c: "cubies (useFrame finishingState) = commitMove R generateSolvedCube"
    using t by (simp add: finishingState_fields commitMove_def commitCubies_def)
  have p: "position (cubies (useFrame finishingState) ! 26) = (1, 1, - 1)"
    by (simp add: c turned_nth_26)
  have "(2::real) + frameSpeed finishingState \<ge> TOTAL_ROTATION"
    using pi_half_less_two by (simp add: finishingState_fields TOTAL_ROTATION_def)
  with t have i: "cubies (useFrame (finishingState
      \<lparr>currentMove := Some ((startMove R generateSolvedCube)\<lparr>progress := 2\<rparr>)\<rparr>)) =
     cubies (useFrame finishingState)"
    by simp
  from t have n: "useFrame (useFrame finishingState) =
      (useFrame finishingState)\<lparr>animationQueue := [U, U, U, U, U], isAnimating := True,
        currentMove := Some ((startMove U (cubies (useFrame finishingState)))
          \<lparr>progress := (if length [U, U, U, U, U] > 5 then ANIMATION_SPEED * 4 else ANIMATION_SPEED)\<rparr>)\<rparr>"
    by (simp add: finishingState_fields)
  show ?thesis
    using t h3 c p i by (simp add: n finishingState_fields ANIMATION_SPEED_def)
qed

text \<open>
  C6. In the center-piece case of the arrow generator (the move does not displace the
  clicked piece) only the clockwise variant of the move gives a cue, the primed variant
  gives none, so that no two cues face each other at one place. \<open>addArrow\<close> does so
  (\<open>if (!isCW) return\<close>); \<open>generateArrow\<close>, the generator of the component that is
  rendered, has no such filter. For the center piece of the right face, clicked on its
  outer face, the move does not displace the piece, and yet the primed move \<open>R'\<close> gets a
  cue: at the very point of the cue of \<open>R\<close>, with the opposite direction. At the same
  piece \<open>addArrow\<close> gives no cue for \<open>R'\<close>.
\<close>

theorem primed_center_cue:
  "includesPrime R' \<and>
   lengthSq (subVectors (getRotationResult (1, 0, 0) AxisX 1) (1, 0, 0)) < 0.1 \<and>
   generateArrow (1, 0, 0) (1, 0, 0) R' =
     Some [\<lparr>arrow_key = moveCode R' @ ''-center'', arrow_position = (1.6, 0.35, 0),
            arrow_direction = (0, 0, 1), arrow_label = R', arrow_color = ''#ffffff''\<rparr>] \<and>
   generateArrow (1, 0, 0) (1, 0, 0) R =
     Some [\<lparr>arrow_key = moveCode R @ ''-center'', arrow_position = (1.6, 0.35, 0),
            arrow_direction = (0, 0, - 1), arrow_label = R, arrow_color = ''#ffffff''\<rparr>] \<and>
   addArrow (1, 0, 0) AxisX 1 R' = [] \<and>
   addArrow (1, 0, 0) AxisX 1 R \<noteq> []"
  using addArrow_center_primed[of R'] addArrow_center_primed[of R]
  by (simp add: generateArrow_R' generateArrow_R includesPrime_def getRotationResult_cell
      cubeCells_def lengthSq_def parseMove_simps)

text \<open>
  C7. The snapped normal of a click keeps the sign of the component of greatest
  magnitude and zeroes the others, so that it is one of the six signed axis vectors.
  The code compares every component with the maximum on its own: when two components
  tie for the maximum, both keep their sign. For the normal \<open>(1, 1, 0)\<close> the result is
  \<open>(1, 1, 0)\<close>, which is none of the six axis vectors. (Where one component is strictly
  dominant the result is the axis vector of that component: \<open>snapNormal_dominant_x\<close>,
  \<open>snapNormal_dominant_y\<close>, \<open>snapNormal_dominant_z\<close>.)
\<close>

theorem snapNormal_tie:
  "snapNormal (1, 1, 0) = (1, 1, 0) \<and>
   snapNormal (1, 1, 0) \<notin> {(1, 0, 0), (- 1, 0, 0), (0, 1, 0), (0, - 1, 0), (0, 0, 1), (0, 0, - 1)}"
  by (simp add: snapNormal_def normalize_def vlength_def lengthSq_def Let_def)

text \<open>
  C8. With no animation running, a click on the piece whose snapped logical position is
  \<open>(1, 1, 1)\<close> yields exactly the set of move letters \<open>{R, U, F}\<close>; on the piece at
  \<open>(1, 1, 0)\<close> exactly \<open>{R, U}\<close>; on the piece at \<open>(1, 0, 0)\<close> exactly \<open>{R}\<close>.
\<close>

theorem click_legal_moves:
  assumes "\<not> isAnimating s"
  shows "(roundVector (position c) = (1, 1, 1) \<longrightarrow>
            set (availableFaces (handleCubieClick n c s)) = {''R'', ''U'', ''F''}) \<and>
         (roundVector (position c) = (1, 1, 0) \<longrightarrow>
            set (availableFaces (handleCubieClick n c s)) = {''R'', ''U''}) \<and>
         (roundVector (position c) = (1, 0, 0) \<longrightarrow>
            set (availableFaces (handleCubieClick n c s)) = {''R''})"
  using assms validFaces_center[of "position c" R]
  by (auto simp: handleCubieClick_faces validFaces_corner_edge)

theorem click_legal_moves_witness:
  "\<not> isAnimating initialState \<and>
   roundVector (position (generateSolvedCube ! 26)) = (1, 1, 1) \<and>
   set (availableFaces (handleCubieClick None (generateSolvedCube ! 26) initialState)) =
     {''R'', ''U'', ''F''} \<and>
   roundVector (position (generateSolvedCube ! 25)) = (1, 1, 0) \<and>
   set (availableFaces (handleCubieClick None (generateSolvedCube ! 25) initialState)) =
     {''R'', ''U''} \<and>
   roundVector (position (generateSolvedCube ! 22)) = (1, 0, 0) \<and>
   set (availableFaces (handleCubieClick None (generateSolvedCube ! 22) initialState)) = {''R''}"
proof -
  have i: "\<not> isAnimating initialState" by (simp add: initialState_def)
  show ?thesis
    using i click_legal_moves[OF i, of "generateSolvedCube ! 26" None]
      click_legal_moves[OF i, of "generateSolvedCube ! 25" None]
      click_legal_moves[OF i, of "generateSolvedCube ! 22" None]
    by (simp add: solved_nth_26 solved_nth_25 solved_nth_22)
qed



text \<open>
  C10. With no animation running, a click on a center piece (its snapped logical position
  is the center cell of a face) passes to \<open>onSelectionChange\<close> a list in which the letter
  of that face appears twice, as \<open>[''R'', ''R'']\<close> for the position \<open>(1, 0, 0)\<close>: the
  check of each coordinate and the check for center pieces both append it.
\<close>

theorem center_click_letter_twice:
  assumes "\<not> isAnimating s" "roundVector (position c) = faceCenter move"
  shows "availableFaces (handleCubieClick n c s) = [take 1 (moveCode move), take 1 (moveCode move)]"
  using assms by (simp add: handleCubieClick_faces validFaces_center)

theorem center_click_letter_twice_witness:
  "\<not> isAnimating initialState \<and>
   roundVector (position (generateSolvedCube ! 22)) = faceCenter R \<and>
   availableFaces (handleCubieClick (Some (1, 0, 0)) (generateSolvedCube ! 22) initialState) =
     [''R'', ''R'']"
proof -
  have i: "\<not> isAnimating initialState" by (simp add: initialState_def)
  have p: "roundVector (position (generateSolvedCube ! 22)) = faceCenter R"
    by (simp add: solved_nth_22)
  show ?thesis
    using i p center_click_letter_twice[OF i p, of "Some (1, 0, 0)"] by simp
qed

end
